theory Spec2Isabelle
  imports Main "HOL-Library.Word"
begin

unbundle bit_operations_syntax

section \<open>Data model of \<open>package_downloader.c\<close>\<close>

text \<open>
  The enumerations live in headers outside the file; the file names one member of each
  (\<open>LR_CHECKSUM_UNKNOWN\<close>, \<open>LR_YUMREPO\<close>) and four error codes. Every other member
  is kept apart by a number.
\<close>

datatype LrChecksumType = LR_CHECKSUM_UNKNOWN | LR_CHECKSUM_ALGO nat

datatype LrRepotype = LR_YUMREPO | LR_REPOTYPE_OTHER nat

datatype LrRc = LRE_MEMORY | LRE_BADFUNCARG | LRE_SIGACTION | LRE_INTERRUPTED | LRE_RC_OTHER nat

datatype GQuark = LR_PACKAGE_DOWNLOADER_ERROR | G_QUARK_OTHER nat

record GError =
  gerror_domain :: GQuark
  gerror_code :: LrRc
  gerror_message :: string

text \<open>
  A \<open>char *\<close> that may be \<open>NULL\<close> is a \<open>string option\<close>; \<open>relative_url\<close> is
  asserted non-\<open>NULL\<close> by \<open>lr_packagetarget_new\<close>. The callback and its data are
  opaque pointers.
\<close>

record LrPackageTarget =
  relative_url :: string
  dest :: "string option"
  base_url :: "string option"
  checksum_type :: LrChecksumType
  checksum :: "string option"
  expectedsize :: "64 word"
  resume :: bool
  progresscb :: nat
  cbdata :: nat
  local_path :: "string option"
  err :: "string option"

text \<open>
  The list handed to \<open>lr_download_packages\<close> is a list of pointers, and the back
  reference of a download target is such a pointer: package targets live in a store.
\<close>

type_synonym addr = nat
type_synonym store = "addr \<Rightarrow> LrPackageTarget"

text \<open>
  Modelled from the spec: \<open>lr_downloadtarget_new\<close> and \<open>LrDownloadTarget\<close> are in
  \<open>downloadtarget.c\<close>/\<open>downloadtarget.h\<close>, not in the file. The spec's
  ResolvedDownloadTarget carries the concrete local path, the request's fields and a back
  reference to the request; the record keeps the eleven arguments of the call in the
  order they are passed, and the error slot that the engine annotates.
\<close>

record LrDownloadTarget =
  dt_path :: string
  dt_baseurl :: "string option"
  dt_fd :: int
  dt_fn :: string
  dt_checksumtype :: LrChecksumType
  dt_checksum :: "string option"
  dt_expectedsize :: "64 word"
  dt_resume :: bool
  dt_progresscb :: nat
  dt_cbdata :: nat
  dt_userdata :: addr
  dt_err :: "string option"

definition lr_downloadtarget_new ::
  "string \<Rightarrow> string option \<Rightarrow> int \<Rightarrow> string \<Rightarrow> LrChecksumType \<Rightarrow> string option \<Rightarrow> 64 word
    \<Rightarrow> bool \<Rightarrow> nat \<Rightarrow> nat \<Rightarrow> addr \<Rightarrow> LrDownloadTarget" where
  "lr_downloadtarget_new path baseurl fd fn checksumtype chksum expsize res cb cbd userdata =
     \<lparr>dt_path = path, dt_baseurl = baseurl, dt_fd = fd, dt_fn = fn,
      dt_checksumtype = checksumtype, dt_checksum = chksum, dt_expectedsize = expsize,
      dt_resume = res, dt_progresscb = cb, dt_cbdata = cbd, dt_userdata = userdata,
      dt_err = None\<rparr>"

record LrHandle =
  repotype :: LrRepotype
  interruptible :: bool
  destdir :: "string option"
  user_cb :: nat
  user_data :: nat

datatype sighandler = SIG_DFL | SIG_IGN | SIG_USER nat | lr_sigint_handler

text \<open>What the call does to the world outside the store, in program order.\<close>

datatype event =
    EvSigactionInstall
  | EvSigactionRestore sighandler
  | EvPrepareInternalMirrorlist
  | EvOpen string
  | EvChecksumFdCmp LrChecksumType string string
  | EvClose string
  | EvDownload "LrDownloadTarget list" bool

text \<open>
  Everything the file calls but does not define, and the build setting it depends on.
  The file system does not change while the targets are prepared, so the three tests on a
  path are functions of the path. A file descriptor stands for the file opened at a path,
  so the verifier is indexed by the path. \<open>sigaction_ok\<close> is the outcome of the
  installation, the one call of \<open>sigaction\<close> whose result the file tests; the
  restoration, whose result it drops, takes effect. The \<open>GError **\<close> cell is passed
  to the two collaborators and comes back as they leave it; they receive the handle and
  leave \<open>repotype\<close> and \<open>interruptible\<close> as they are. The engine annotates the
  targets in place: its third result gives the \<open>err\<close> field of the target at each
  position of the list after the call. \<open>lr_interrupt\<close> is the value of the global
  flag, set by the signal handler, when the file reads it after the restoration.
\<close>

record world =
  NDEBUG :: bool
  LR_PACKAGEDOWNLOAD_FAILFAST :: "32 word"
  malloc_ok :: bool
  g_file_test_is_dir :: "string \<Rightarrow> bool"
  g_access_r_ok :: "string \<Rightarrow> bool"
  open_rdonly_ok :: "string \<Rightarrow> bool"
  lr_checksum_fd_cmp :: "LrChecksumType \<Rightarrow> string \<Rightarrow> string \<Rightarrow> bool \<times> bool"
  sigaction_ok :: bool
  lr_handle_prepare_internal_mirrorlist :: "LrHandle \<Rightarrow> GError option \<Rightarrow> bool \<times> GError option"
  lr_download ::
    "LrHandle \<Rightarrow> LrDownloadTarget list \<Rightarrow> bool \<Rightarrow> GError option
      \<Rightarrow> bool \<times> GError option \<times> (nat \<Rightarrow> string option)"
  lr_interrupt :: bool

text \<open>
  The result of a call: the process aborted at a failed assertion, or the call returned
  its boolean, the content of the caller's \<open>GError\<close> cell (a caller that passes
  \<open>NULL\<close> sees the boolean only), the store, and the handler installed for SIGINT.
\<close>

datatype 'h outcome =
    Aborted (trace: "event list")
  | Returned (ret: bool) (gerr: "GError option") (store_of: 'h) (sigint: sighandler)
      (trace: "event list")

section \<open>GLib helpers\<close>

text \<open>
  \<open>g_set_error\<close> fills an empty cell and leaves a set one as it is (GLib warns);
  \<open>g_clear_error\<close> empties the cell.
\<close>

definition g_set_error :: "GError option \<Rightarrow> GQuark \<Rightarrow> LrRc \<Rightarrow> string \<Rightarrow> GError option" where
  "g_set_error cell d c m =
     (case cell of
        None \<Rightarrow> Some \<lparr>gerror_domain = d, gerror_code = c, gerror_message = m\<rparr>
      | Some e \<Rightarrow> Some e)"

definition g_clear_error :: "GError option \<Rightarrow> GError option" where
  "g_clear_error cell = None"

definition is_dir_separator :: "char \<Rightarrow> bool" where
  "is_dir_separator c = (c = CHR ''/'')"

text \<open>
  \<open>g_path_get_basename\<close> of GLib on POSIX: \<open>"."\<close> for the empty string, \<open>"/"\<close> for a
  string of separators only, otherwise the last component with trailing separators
  dropped.
\<close>

definition g_path_get_basename :: "string \<Rightarrow> string" where
  "g_path_get_basename file_name =
     (if file_name = [] then ''.''
      else let stripped = dropWhile is_dir_separator (rev file_name)
           in if stripped = [] then ''/''
              else rev (takeWhile (\<lambda>c. \<not> is_dir_separator c) stripped))"

text \<open>
  \<open>g_build_filename\<close> of GLib on POSIX (\<open>g_build_path_va\<close> with separator \<open>"/"\<close>),
  over the list of its elements. The loop state is GLib's: the result so far,
  \<open>is_first\<close>, \<open>have_leading\<close>, \<open>single_element\<close> and \<open>last_trailing\<close>.
\<close>

record build_path_state =
  bp_result :: string
  bp_is_first :: bool
  bp_have_leading :: bool
  bp_single_element :: "string option"
  bp_last_trailing :: "string option"

definition g_build_path_step :: "build_path_state \<Rightarrow> string \<Rightarrow> build_path_state" where
  "g_build_path_step st element =
     (if element = [] then st
      else
        let leading = takeWhile is_dir_separator element;
            start = dropWhile is_dir_separator element;
            body = rev (dropWhile is_dir_separator (rev start));
            last_trailing = (if body = [] then element else drop (length body) start);
            st1 = (if \<not> bp_have_leading st
                   then st\<lparr>bp_single_element := (if body = [] then Some element else bp_single_element st),
                           bp_result := bp_result st @ leading,
                           bp_have_leading := True,
                           bp_last_trailing := Some last_trailing\<rparr>
                   else st\<lparr>bp_single_element := None, bp_last_trailing := Some last_trailing\<rparr>)
        in if body = [] then st1
           else st1\<lparr>bp_result := bp_result st1 @ (if bp_is_first st1 then [] else ''/'') @ body,
                    bp_is_first := False\<rparr>)"

definition g_build_filename :: "string list \<Rightarrow> string" where
  "g_build_filename elements =
     (let st = foldl g_build_path_step
                 \<lparr>bp_result = [], bp_is_first = True, bp_have_leading = False,
                  bp_single_element = None, bp_last_trailing = None\<rparr> elements
      in case bp_single_element st of
           Some e \<Rightarrow> e
         | None \<Rightarrow> (case bp_last_trailing st of
                      Some t \<Rightarrow> bp_result st @ t
                    | None \<Rightarrow> bp_result st))"

section \<open>\<open>lr_packagetarget_new\<close>\<close>

text \<open>
  \<open>lr_string_chunk_insert\<close> copies a string and passes \<open>NULL\<close> through;
  \<open>lr_malloc0\<close> zeroes the block, so \<open>local_path\<close> and \<open>err\<close> start as \<open>NULL\<close>.
  \<open>relative_url\<close> is a string, so \<open>assert(relative_url)\<close> holds.
  \<open>assert(!err || *err == NULL)\<close> fails on a cell that already holds an error: the
  result is \<open>None\<close> when the process aborts there, which a build that defines
  \<open>NDEBUG\<close> does not do.
\<close>

definition lr_packagetarget_new ::
  "world \<Rightarrow> string \<Rightarrow> string option \<Rightarrow> LrChecksumType \<Rightarrow> string option \<Rightarrow> 64 word
    \<Rightarrow> string option \<Rightarrow> bool \<Rightarrow> nat \<Rightarrow> nat \<Rightarrow> GError option
    \<Rightarrow> (LrPackageTarget option \<times> GError option) option" where
  "lr_packagetarget_new w rel_url dst chk_type chk expsize burl res cb cbd cell =
     (if cell \<noteq> None \<and> \<not> NDEBUG w then None
      else if \<not> malloc_ok w
      then Some (None,
             g_set_error cell LR_PACKAGE_DOWNLOADER_ERROR LRE_MEMORY ''Out of memory'')
      else Some (Some \<lparr>relative_url = rel_url, dest = dst, base_url = burl,
                        checksum_type = chk_type, checksum = chk, expectedsize = expsize,
                        resume = res, progresscb = cb, cbdata = cbd,
                        local_path = None, err = None\<rparr>, cell))"

section \<open>\<open>lr_download_packages\<close>\<close>

subsection \<open>Prepare destination filename (lines 136--151)\<close>

definition destination_filename :: "world \<Rightarrow> LrPackageTarget \<Rightarrow> string" where
  "destination_filename w packagetarget =
     (case dest packagetarget of
        Some d \<Rightarrow>
          (if g_file_test_is_dir w d
           then g_build_filename [d, g_path_get_basename (relative_url packagetarget)]
           else d)
      | None \<Rightarrow> g_path_get_basename (relative_url packagetarget))"

subsection \<open>The check for an already downloaded file (lines 157--186)\<close>

text \<open>
  The result is whether the loop takes its \<open>continue\<close>, with the calls made on the way.
  \<open>matches\<close> is read only when the verifier returned true.
\<close>

definition already_downloaded :: "world \<Rightarrow> LrPackageTarget \<Rightarrow> string \<Rightarrow> bool \<times> event list" where
  "already_downloaded w packagetarget lp =
     (if g_access_r_ok w lp
      then
        (case checksum packagetarget of
           None \<Rightarrow> (False, [])
         | Some chk \<Rightarrow>
             (if checksum_type packagetarget \<noteq> LR_CHECKSUM_UNKNOWN
              then
                (if open_rdonly_ok w lp
                 then (case lr_checksum_fd_cmp w (checksum_type packagetarget) lp chk of
                         (r, matches) \<Rightarrow>
                           (r \<and> matches,
                            [EvOpen lp, EvChecksumFdCmp (checksum_type packagetarget) lp chk,
                             EvClose lp]))
                 else (False, [EvOpen lp]))
              else (False, [])))
      else (False, []))"

subsection \<open>Prepare targets (lines 130--201)\<close>

fun prepare_targets ::
  "world \<Rightarrow> store \<Rightarrow> LrDownloadTarget list \<Rightarrow> event list \<Rightarrow> addr list
    \<Rightarrow> store \<times> LrDownloadTarget list \<times> event list" where
  "prepare_targets w st downloadtargets tr [] = (st, downloadtargets, tr)"
| "prepare_targets w st downloadtargets tr (elem # targets) =
     (let packagetarget = st elem;
          lp = destination_filename w packagetarget;
          packagetarget1 = packagetarget\<lparr>local_path := Some lp\<rparr>;
          st1 = st(elem := packagetarget1);
          (skip, evs) = already_downloaded w packagetarget1 lp
      in if skip
         then prepare_targets w
                (st1(elem := packagetarget1\<lparr>err := Some ''Already downloaded''\<rparr>))
                downloadtargets (tr @ evs) targets
         else prepare_targets w st1
                (downloadtargets @
                   [lr_downloadtarget_new (relative_url packagetarget1) (base_url packagetarget1)
                      (- 1) lp (checksum_type packagetarget1) (checksum packagetarget1)
                      (expectedsize packagetarget1) (resume packagetarget1)
                      (progresscb packagetarget1) (cbdata packagetarget1) elem])
                (tr @ evs) targets)"

subsection \<open>Copy download statuses (lines 208--215)\<close>

fun annotate :: "nat \<Rightarrow> (nat \<Rightarrow> string option) \<Rightarrow> LrDownloadTarget list \<Rightarrow> LrDownloadTarget list" where
  "annotate i errs [] = []"
| "annotate i errs (dt # dts) = dt\<lparr>dt_err := errs i\<rparr> # annotate (Suc i) errs dts"

fun copy_statuses :: "store \<Rightarrow> LrDownloadTarget list \<Rightarrow> store" where
  "copy_statuses st [] = st"
| "copy_statuses st (downloadtarget # downloadtargets) =
     (let packagetarget = dt_userdata downloadtarget
      in copy_statuses
           (case dt_err downloadtarget of
              Some e \<Rightarrow> st(packagetarget := (st packagetarget)\<lparr>err := Some e\<rparr>)
            | None \<Rightarrow> st)
           downloadtargets)"

subsection \<open>The \<open>cleanup\<close> label to the end (lines 206--233)\<close>

definition cleanup ::
  "world \<Rightarrow> LrHandle \<Rightarrow> store \<Rightarrow> LrDownloadTarget list \<Rightarrow> bool \<Rightarrow> GError option
    \<Rightarrow> sighandler \<Rightarrow> sighandler \<Rightarrow> event list \<Rightarrow> store outcome" where
  "cleanup w handle st downloadtargets r cell old_sigact cur tr =
     (let st' = copy_statuses st downloadtargets
      in if interruptible handle
         then
           (if lr_interrupt w
            then Returned False
                   (g_set_error (case cell of None \<Rightarrow> cell | Some e \<Rightarrow> g_clear_error cell)
                      LR_PACKAGE_DOWNLOADER_ERROR LRE_INTERRUPTED
                      ''Insterupted by a SIGINT signal'')
                   st' old_sigact (tr @ [EvSigactionRestore old_sigact])
            else Returned r cell st' old_sigact (tr @ [EvSigactionRestore old_sigact]))
         else Returned r cell st' cur tr)"

subsection \<open>The function (lines 85--234)\<close>

text \<open>
  \<open>handle\<close> is a record, so \<open>assert(handle)\<close> holds; the caller's cell starts empty,
  so \<open>assert(!err || *err == NULL)\<close> holds. \<open>assert(0)\<close> aborts unless the build
  defines \<open>NDEBUG\<close>. \<open>cur\<close> is the handler installed for SIGINT when the call starts.
\<close>

definition lr_download_packages ::
  "world \<Rightarrow> LrHandle \<Rightarrow> store \<Rightarrow> addr list \<Rightarrow> 32 word \<Rightarrow> sighandler \<Rightarrow> store outcome" where
  "lr_download_packages w handle st targets flags cur =
     (let failfast = (flags AND LR_PACKAGEDOWNLOAD_FAILFAST w \<noteq> 0)
      in if targets = [] then Returned True None st cur []
         else if repotype handle \<noteq> LR_YUMREPO
         then (if NDEBUG w
               then Returned False
                      (g_set_error None LR_PACKAGE_DOWNLOADER_ERROR LRE_BADFUNCARG ''Bad repo type'')
                      st cur []
               else Aborted [])
         else if interruptible handle \<and> \<not> sigaction_ok w
         then Returned False
                (g_set_error None LR_PACKAGE_DOWNLOADER_ERROR LRE_SIGACTION
                   ''Cannot set Librepo SIGINT handler'')
                st cur []
         else
           let old_sigact = cur;
               cur1 = (if interruptible handle then lr_sigint_handler else cur);
               tr0 = (if interruptible handle then [EvSigactionInstall] else []);
               (r1, cell1) = lr_handle_prepare_internal_mirrorlist w handle None;
               tr1 = tr0 @ [EvPrepareInternalMirrorlist]
           in if \<not> r1 then cleanup w handle st [] r1 cell1 old_sigact cur1 tr1
              else
                (case prepare_targets w st [] tr1 targets of
                   (st2, downloadtargets, tr2) \<Rightarrow>
                     (case lr_download w handle downloadtargets failfast cell1 of
                        (r2, cell2, errs) \<Rightarrow>
                          cleanup w handle st2 (annotate 0 errs downloadtargets) r2 cell2
                            old_sigact cur1 (tr2 @ [EvDownload downloadtargets failfast]))))"

section \<open>\<open>lr_download_package\<close> (lines 236--275)\<close>

text \<open>
  The one target is allocated by the call and freed before it returns, so the caller sees
  no store: the call runs the batch on a store of its own, with the target at pointer 0.
  The caller's cell starts empty, so the assertion on it holds here and in
  \<open>lr_packagetarget_new\<close>, which receives the same cell.
\<close>

definition lr_download_package ::
  "world \<Rightarrow> LrHandle \<Rightarrow> string \<Rightarrow> string option \<Rightarrow> LrChecksumType \<Rightarrow> string option \<Rightarrow> 64 word
    \<Rightarrow> string option \<Rightarrow> bool \<Rightarrow> sighandler \<Rightarrow> unit outcome" where
  "lr_download_package w handle rel_url dst chk_type chk expsize burl res cur =
     (let dst1 = (case dst of None \<Rightarrow> destdir handle | Some d \<Rightarrow> Some d)
      in case lr_packagetarget_new w rel_url dst1 chk_type chk expsize burl res
                (user_cb handle) (user_data handle) None of
           None \<Rightarrow> Aborted []
         | Some (None, cell) \<Rightarrow> Returned False cell () cur []
         | Some (Some target, cell) \<Rightarrow>
             (case lr_download_packages w handle (\<lambda>_. target) [0]
                     (LR_PACKAGEDOWNLOAD_FAILFAST w) cur of
                Aborted tr \<Rightarrow> Aborted tr
              | Returned r cell' st' cur' tr \<Rightarrow> Returned r cell' () cur' tr))"

section \<open>Notions used to state the properties\<close>

text \<open>
  What one pass of the loop decides for a package target: whether it takes the
  \<open>continue\<close>, which calls the check makes, the download target it builds otherwise,
  and the package target it leaves in the store.
\<close>

definition skips :: "world \<Rightarrow> LrPackageTarget \<Rightarrow> bool" where
  "skips w pt = fst (already_downloaded w pt (destination_filename w pt))"

definition check_events :: "world \<Rightarrow> LrPackageTarget \<Rightarrow> event list" where
  "check_events w pt = snd (already_downloaded w pt (destination_filename w pt))"

definition downloadtarget_for :: "world \<Rightarrow> LrPackageTarget \<Rightarrow> addr \<Rightarrow> LrDownloadTarget" where
  "downloadtarget_for w pt a =
     lr_downloadtarget_new (relative_url pt) (base_url pt) (- 1) (destination_filename w pt)
       (checksum_type pt) (checksum pt) (expectedsize pt) (resume pt) (progresscb pt)
       (cbdata pt) a"

definition prepared :: "world \<Rightarrow> LrPackageTarget \<Rightarrow> LrPackageTarget" where
  "prepared w pt =
     pt\<lparr>local_path := Some (destination_filename w pt),
        err := (if skips w pt then Some ''Already downloaded'' else err pt)\<rparr>"

text \<open>
  The call gets as far as the loop over the targets: the repo type is the supported one,
  the handler could be installed where one is wanted, and the internal mirrorlist was
  prepared.
\<close>

definition reaches_prepare :: "world \<Rightarrow> LrHandle \<Rightarrow> bool" where
  "reaches_prepare w handle =
     (repotype handle = LR_YUMREPO
      \<and> (interruptible handle \<longrightarrow> sigaction_ok w)
      \<and> fst (lr_handle_prepare_internal_mirrorlist w handle None))"

text \<open>The calls of the engine and the restorations of a handler that a trace records.\<close>

fun engine_calls :: "event list \<Rightarrow> (LrDownloadTarget list \<times> bool) list" where
  "engine_calls [] = []"
| "engine_calls (EvDownload dts ff # tr) = (dts, ff) # engine_calls tr"
| "engine_calls (_ # tr) = engine_calls tr"

fun restorations :: "event list \<Rightarrow> sighandler list" where
  "restorations [] = []"
| "restorations (EvSigactionRestore h # tr) = h # restorations tr"
| "restorations (_ # tr) = restorations tr"

fun installations :: "event list \<Rightarrow> nat" where
  "installations [] = 0"
| "installations (EvSigactionInstall # tr) = Suc (installations tr)"
| "installations (_ # tr) = installations tr"

text \<open>
  The result of the engine for the list and flag it was called with, after a successful
  preparation of the mirrorlist, and what it leaves in the \<open>err\<close> field of the target
  at each position.
\<close>

definition engine_result ::
  "world \<Rightarrow> LrHandle \<Rightarrow> LrDownloadTarget list \<Rightarrow> bool
    \<Rightarrow> bool \<times> GError option \<times> (nat \<Rightarrow> string option)" where
  "engine_result w handle dts ff =
     lr_download w handle dts ff (snd (lr_handle_prepare_internal_mirrorlist w handle None))"

definition engine_errs ::
  "world \<Rightarrow> LrHandle \<Rightarrow> LrDownloadTarget list \<Rightarrow> bool \<Rightarrow> nat \<Rightarrow> string option" where
  "engine_errs w handle dts ff = snd (snd (engine_result w handle dts ff))"

text \<open>The error that reports an interruption.\<close>

definition interrupted_error :: GError where
  "interrupted_error =
     \<lparr>gerror_domain = LR_PACKAGE_DOWNLOADER_ERROR, gerror_code = LRE_INTERRUPTED,
      gerror_message = ''Insterupted by a SIGINT signal''\<rparr>"

text \<open>
  The fail-fast flag as the engine receives it, and the list the loop builds: a download
  target for each package target that does not take the \<open>continue\<close>, in the order of the
  input list.
\<close>

definition failfast_of :: "world \<Rightarrow> 32 word \<Rightarrow> bool" where
  "failfast_of w flags = (flags AND LR_PACKAGEDOWNLOAD_FAILFAST w \<noteq> 0)"

definition download_list :: "world \<Rightarrow> store \<Rightarrow> addr list \<Rightarrow> LrDownloadTarget list" where
  "download_list w st targets =
     map (\<lambda>a. downloadtarget_for w (st a) a) (filter (\<lambda>a. \<not> skips w (st a)) targets)"

text \<open>
  The two ways a package target misses the \<open>continue\<close>: no checksum is configured, or
  the check finds no readable file, cannot open it, or the verifier does not report a
  match.
\<close>

definition no_checksum_configured :: "LrPackageTarget \<Rightarrow> bool" where
  "no_checksum_configured pt =
     (checksum pt = None \<or> checksum_type pt = LR_CHECKSUM_UNKNOWN)"

definition check_fails :: "world \<Rightarrow> LrPackageTarget \<Rightarrow> bool" where
  "check_fails w pt =
     (let lp = destination_filename w pt
      in \<not> g_access_r_ok w lp \<or> \<not> open_rdonly_ok w lp
         \<or> (case checksum pt of
               None \<Rightarrow> False
             | Some chk \<Rightarrow>
                 (case lr_checksum_fd_cmp w (checksum_type pt) lp chk of
                    (r, matches) \<Rightarrow> \<not> (r \<and> matches))))"

text \<open>
  The resolution that falls back to the destination directory of the handle when the
  package target has no destination, as the specification words it for every target of a
  batch.
\<close>

definition spec_destination_with_handle_default ::
  "world \<Rightarrow> LrHandle \<Rightarrow> LrPackageTarget \<Rightarrow> string" where
  "spec_destination_with_handle_default w handle pt =
     (case dest pt of
        Some d \<Rightarrow> destination_filename w pt
      | None \<Rightarrow> destination_filename w (pt\<lparr>dest := destdir handle\<rparr>))"

section \<open>A concrete batch\<close>

text \<open>
  Three package targets: \<open>foo\<close> goes to the existing directory \<^verbatim>\<open>/tmp/repo\<close>, where a
  file with the expected checksum is already present; \<open>bar\<close> has neither destination nor
  checksum; \<open>baz\<close> goes to the file \<^verbatim>\<open>/tmp/out.rpm\<close>, which exists with another
  content. The engine fails on the second target it is given.
\<close>

definition demo_foo :: LrPackageTarget where
  "demo_foo =
     \<lparr>relative_url = ''pkgs/foo-1.0.rpm'', dest = Some ''/tmp/repo'', base_url = None,
      checksum_type = LR_CHECKSUM_ALGO 0, checksum = Some ''abc'', expectedsize = 0,
      resume = False, progresscb = 0, cbdata = 0, local_path = None, err = None\<rparr>"

definition demo_bar :: LrPackageTarget where
  "demo_bar =
     \<lparr>relative_url = ''pkgs/bar-2.0.rpm'', dest = None, base_url = None,
      checksum_type = LR_CHECKSUM_UNKNOWN, checksum = None, expectedsize = 0,
      resume = True, progresscb = 0, cbdata = 0, local_path = None, err = None\<rparr>"

definition demo_baz :: LrPackageTarget where
  "demo_baz =
     \<lparr>relative_url = ''pkgs/baz.rpm'', dest = Some ''/tmp/out.rpm'', base_url = None,
      checksum_type = LR_CHECKSUM_ALGO 0, checksum = Some ''def'', expectedsize = 0,
      resume = True, progresscb = 0, cbdata = 0, local_path = None, err = None\<rparr>"

definition demo_store :: store where
  "demo_store a = (if a = 10 then demo_foo else if a = 20 then demo_bar else demo_baz)"

definition demo_engine_error :: GError where
  "demo_engine_error =
     \<lparr>gerror_domain = G_QUARK_OTHER 0, gerror_code = LRE_RC_OTHER 0,
      gerror_message = ''Download failed''\<rparr>"

definition demo_world :: world where
  "demo_world =
     \<lparr>NDEBUG = False, LR_PACKAGEDOWNLOAD_FAILFAST = 1, malloc_ok = True,
      g_file_test_is_dir = (\<lambda>p. p = ''/tmp/repo''),
      g_access_r_ok = (\<lambda>p. p = ''/tmp/repo/foo-1.0.rpm'' \<or> p = ''/tmp/out.rpm''),
      open_rdonly_ok = (\<lambda>p. True),
      lr_checksum_fd_cmp = (\<lambda>t p c. (True, p = ''/tmp/repo/foo-1.0.rpm'' \<and> c = ''abc'')),
      sigaction_ok = True,
      lr_handle_prepare_internal_mirrorlist = (\<lambda>h c. (True, c)),
      lr_download =
        (\<lambda>h dts ff c. (False, Some demo_engine_error,
                         (\<lambda>i. if i = 1 then Some ''Not found'' else None))),
      lr_interrupt = False\<rparr>"

definition demo_handle :: LrHandle where
  "demo_handle =
     \<lparr>repotype = LR_YUMREPO, interruptible = True, destdir = Some ''/tmp/repo'',
      user_cb = 0, user_data = 0\<rparr>"

text \<open>
  A later call on the target \<open>foo\<close> as the batch above leaves it, after the local file
  was removed: nothing is readable any more, and the engine succeeds and records no
  error.
\<close>

definition demo_resubmitted :: store where
  "demo_resubmitted a =
     demo_foo\<lparr>local_path := Some ''/tmp/repo/foo-1.0.rpm'', err := Some ''Already downloaded''\<rparr>"

definition demo_world_later :: world where
  "demo_world_later =
     demo_world\<lparr>g_access_r_ok := (\<lambda>p. False),
                lr_download := (\<lambda>h dts ff c. (True, c, (\<lambda>i. None)))\<rparr>"

section \<open>Lemmas about the loops\<close>

subsection \<open>The loop over the targets in closed form\<close>

lemma already_downloaded_ignores:
  "already_downloaded w (pt\<lparr>local_path := x\<rparr>) lp = already_downloaded w pt lp"
  "already_downloaded w (pt\<lparr>err := y\<rparr>) lp = already_downloaded w pt lp"
  by (simp_all add: already_downloaded_def split: option.splits)

lemma destination_filename_ignores:
  "destination_filename w (pt\<lparr>local_path := x\<rparr>) = destination_filename w pt"
  "destination_filename w (pt\<lparr>err := y\<rparr>) = destination_filename w pt"
  by (simp_all add: destination_filename_def split: option.splits)

lemma prepared_stable:
  "skips w (prepared w pt) = skips w pt"
  "check_events w (prepared w pt) = check_events w pt"
  "downloadtarget_for w (prepared w pt) a = downloadtarget_for w pt a"
  "destination_filename w (prepared w pt) = destination_filename w pt"
  by (simp_all add: prepared_def skips_def check_events_def downloadtarget_for_def
        already_downloaded_ignores destination_filename_ignores)

lemma prepared_idem: "prepared w (prepared w pt) = prepared w pt"
  by (simp add: prepared_def skips_def already_downloaded_ignores destination_filename_ignores)

lemma prepare_targets_step:
  "prepare_targets w st dts tr (a # as) =
     prepare_targets w (st(a := prepared w (st a)))
       (dts @ (if skips w (st a) then [] else [downloadtarget_for w (st a) a]))
       (tr @ check_events w (st a)) as"
  by (simp add: Let_def prepared_def skips_def check_events_def downloadtarget_for_def
        already_downloaded_ignores destination_filename_ignores split: prod.splits)

lemma prepare_targets_closed:
  "prepare_targets w st dts tr as =
     (\<lambda>a. if a \<in> set as then prepared w (st a) else st a,
      dts @ map (\<lambda>a. downloadtarget_for w (st a) a) (filter (\<lambda>a. \<not> skips w (st a)) as),
      tr @ concat (map (\<lambda>a. check_events w (st a)) as))"
proof (induction as arbitrary: st dts tr)
  case Nil
  show ?case by simp
next
  case (Cons a as)
  let ?st = "st(a := prepared w (st a))"
  have s: "\<And>b. skips w (?st b) = skips w (st b)"
    and c: "\<And>b. check_events w (?st b) = check_events w (st b)"
    and d: "\<And>b. downloadtarget_for w (?st b) b = downloadtarget_for w (st b) b"
    by (simp_all add: prepared_stable)
  have h: "(\<lambda>b. if b \<in> set as then prepared w (?st b) else ?st b) =
        (\<lambda>b. if b \<in> set (a # as) then prepared w (st b) else st b)"
    by (auto simp: prepared_idem fun_eq_iff)
  show ?case
    unfolding prepare_targets_step Cons.IH s c d h by simp
qed

subsection \<open>Annotation by the engine and the copy of the statuses\<close>

lemma length_annotate: "length (annotate i errs dts) = length dts"
  by (induction dts arbitrary: i) simp_all

lemma annotate_nth:
  "k < length dts \<Longrightarrow> annotate i errs dts ! k = (dts ! k)\<lparr>dt_err := errs (i + k)\<rparr>"
proof (induction dts arbitrary: i k)
  case Nil
  then show ?case by simp
next
  case (Cons dt dts)
  then show ?case by (cases k) simp_all
qed

lemma copy_statuses_untouched:
  "\<forall>dt \<in> set dts. dt_userdata dt = a \<longrightarrow> dt_err dt = None \<Longrightarrow> copy_statuses st dts a = st a"
  by (induction dts arbitrary: st) (auto simp: Let_def split: option.splits)

lemma copy_statuses_keeps_fields:
  "(copy_statuses st dts a)\<lparr>err := x\<rparr> = (st a)\<lparr>err := x\<rparr>"
  by (induction dts arbitrary: st) (auto simp: Let_def split: option.splits)

lemma copy_statuses_recorded:
  "\<exists>dt \<in> set dts. dt_userdata dt = a \<and> dt_err dt \<noteq> None \<Longrightarrow>
   \<exists>dt \<in> set dts. dt_userdata dt = a \<and> dt_err dt \<noteq> None \<and> err (copy_statuses st dts a) = dt_err dt"
proof (induction dts arbitrary: st)
  case Nil
  then show ?case by simp
next
  case (Cons dt dts)
  show ?case
  proof (cases "\<exists>d \<in> set dts. dt_userdata d = a \<and> dt_err d \<noteq> None")
    case True
    from Cons.IH [OF True] show ?thesis by (auto simp: Let_def)
  next
    case False
    then have u: "\<forall>d \<in> set dts. dt_userdata d = a \<longrightarrow> dt_err d = None" by blast
    from False Cons.prems have dt: "dt_userdata dt = a" "dt_err dt \<noteq> None" by auto
    then show ?thesis
      by (auto simp: Let_def copy_statuses_untouched [OF u])
  qed
qed

lemma engine_calls_append: "engine_calls (xs @ ys) = engine_calls xs @ engine_calls ys"
  by (induction xs rule: engine_calls.induct) simp_all

lemma restorations_append: "restorations (xs @ ys) = restorations xs @ restorations ys"
  by (induction xs rule: restorations.induct) simp_all

lemma installations_append: "installations (xs @ ys) = installations xs + installations ys"
  by (induction xs rule: installations.induct) simp_all

lemma check_events_quiet:
  "engine_calls (check_events w pt) = []"
  "restorations (check_events w pt) = []"
  "installations (check_events w pt) = 0"
  by (simp_all add: check_events_def already_downloaded_def split: option.splits prod.splits)

lemma checks_quiet:
  "engine_calls (concat (map (\<lambda>a. check_events w (st a)) as)) = []"
  "restorations (concat (map (\<lambda>a. check_events w (st a)) as)) = []"
  "installations (concat (map (\<lambda>a. check_events w (st a)) as)) = 0"
  by (induction as) (simp_all add: engine_calls_append restorations_append
        installations_append check_events_quiet)

subsection \<open>The call in closed form\<close>

lemma cleanup_Returned:
  "cleanup w handle st dts r cell cur cur1 tr =
     Returned
       (if interruptible handle \<and> lr_interrupt w then False else r)
       (if interruptible handle \<and> lr_interrupt w
        then Some \<lparr>gerror_domain = LR_PACKAGE_DOWNLOADER_ERROR, gerror_code = LRE_INTERRUPTED,
                   gerror_message = ''Insterupted by a SIGINT signal''\<rparr>
        else cell)
       (copy_statuses st dts)
       (if interruptible handle then cur else cur1)
       (tr @ (if interruptible handle then [EvSigactionRestore cur] else []))"
  by (cases cell) (simp_all add: cleanup_def Let_def g_set_error_def g_clear_error_def)


lemma userdata_download_list:
  "map dt_userdata (download_list w st targets) = filter (\<lambda>a. \<not> skips w (st a)) targets"
  by (simp add: download_list_def downloadtarget_for_def lr_downloadtarget_new_def comp_def)

lemma userdata_annotate: "map dt_userdata (annotate i errs dts) = map dt_userdata dts"
  by (induction dts arbitrary: i) simp_all

lemma lr_download_packages_started:
  assumes "targets \<noteq> []" and "repotype handle = LR_YUMREPO"
    and "interruptible handle \<longrightarrow> sigaction_ok w"
    and "lr_handle_prepare_internal_mirrorlist w handle None = (r1, cell1)"
  shows "lr_download_packages w handle st targets flags cur =
     (if \<not> r1
      then cleanup w handle st [] r1 cell1 cur
             (if interruptible handle then lr_sigint_handler else cur)
             ((if interruptible handle then [EvSigactionInstall] else [])
                @ [EvPrepareInternalMirrorlist])
      else
        (case lr_download w handle (download_list w st targets) (failfast_of w flags) cell1 of
           (r2, cell2, errs) \<Rightarrow>
             cleanup w handle (\<lambda>a. if a \<in> set targets then prepared w (st a) else st a)
               (annotate 0 errs (download_list w st targets)) r2 cell2 cur
               (if interruptible handle then lr_sigint_handler else cur)
               (((if interruptible handle then [EvSigactionInstall] else [])
                   @ [EvPrepareInternalMirrorlist])
                  @ concat (map (\<lambda>a. check_events w (st a)) targets)
                  @ [EvDownload (download_list w st targets) (failfast_of w flags)])))"
proof (cases "interruptible handle")
  case True
  with assms(3) have "sigaction_ok w" by simp
  with True assms(1,2) show ?thesis
    unfolding lr_download_packages_def Let_def assms(4) prepare_targets_closed
      download_list_def failfast_of_def
    by simp
next
  case False
  with assms(1,2) show ?thesis
    unfolding lr_download_packages_def Let_def assms(4) prepare_targets_closed
      download_list_def failfast_of_def
    by simp
qed



lemma batch_reached:
  assumes nonempty: "targets \<noteq> []" and reach: "reaches_prepare w handle"
  shows "lr_download_packages w handle st targets flags cur =
     Returned
       (if interruptible handle \<and> lr_interrupt w then False
        else fst (engine_result w handle (download_list w st targets) (failfast_of w flags)))
       (if interruptible handle \<and> lr_interrupt w then Some interrupted_error
        else fst (snd (engine_result w handle (download_list w st targets)
                         (failfast_of w flags))))
       (copy_statuses (\<lambda>a. if a \<in> set targets then prepared w (st a) else st a)
          (annotate 0
             (engine_errs w handle (download_list w st targets) (failfast_of w flags))
             (download_list w st targets)))
       cur
       ((if interruptible handle then [EvSigactionInstall] else [])
          @ EvPrepareInternalMirrorlist # concat (map (\<lambda>a. check_events w (st a)) targets)
          @ EvDownload (download_list w st targets) (failfast_of w flags)
          # (if interruptible handle then [EvSigactionRestore cur] else []))"
proof -
  obtain r1 cell1 where m: "lr_handle_prepare_internal_mirrorlist w handle None = (r1, cell1)"
    by (cases "lr_handle_prepare_internal_mirrorlist w handle None")
  obtain r2 cell2 errs where
    e: "lr_download w handle (download_list w st targets) (failfast_of w flags) cell1
          = (r2, cell2, errs)"
    by (cases "lr_download w handle (download_list w st targets) (failfast_of w flags) cell1")
  from reach m have r1: "r1" and yum: "repotype handle = LR_YUMREPO"
    and sig: "interruptible handle \<longrightarrow> sigaction_ok w"
    by (simp_all add: reaches_prepare_def)
  have res: "engine_result w handle (download_list w st targets) (failfast_of w flags)
               = (r2, cell2, errs)"
    by (simp add: engine_result_def m e)
  show ?thesis
    unfolding engine_errs_def res lr_download_packages_started [OF nonempty yum sig m] e
      cleanup_Returned interrupted_error_def
    using r1 by simp
qed

lemma batch_mirrorlist_failed:
  assumes nonempty: "targets \<noteq> []" and yum: "repotype handle = LR_YUMREPO"
    and sig: "interruptible handle \<longrightarrow> sigaction_ok w"
    and failed: "\<not> fst (lr_handle_prepare_internal_mirrorlist w handle None)"
  shows "lr_download_packages w handle st targets flags cur =
     Returned False
       (if interruptible handle \<and> lr_interrupt w then Some interrupted_error
        else snd (lr_handle_prepare_internal_mirrorlist w handle None))
       st cur
       ((if interruptible handle then [EvSigactionInstall] else [])
          @ EvPrepareInternalMirrorlist
          # (if interruptible handle then [EvSigactionRestore cur] else []))"
proof -
  obtain r1 cell1 where m: "lr_handle_prepare_internal_mirrorlist w handle None = (r1, cell1)"
    by (cases "lr_handle_prepare_internal_mirrorlist w handle None")
  with failed have r1: "\<not> r1" by simp
  show ?thesis
    unfolding lr_download_packages_started [OF nonempty yum sig m] cleanup_Returned
      interrupted_error_def m
    using r1 by simp
qed

lemma batch_not_started:
  "lr_download_packages w handle st [] flags cur = Returned True None st cur []"
  "targets \<noteq> [] \<Longrightarrow> repotype handle \<noteq> LR_YUMREPO \<Longrightarrow>
     lr_download_packages w handle st targets flags cur =
       (if NDEBUG w
        then Returned False
               (Some \<lparr>gerror_domain = LR_PACKAGE_DOWNLOADER_ERROR, gerror_code = LRE_BADFUNCARG,
                      gerror_message = ''Bad repo type''\<rparr>) st cur []
        else Aborted [])"
  "targets \<noteq> [] \<Longrightarrow> repotype handle = LR_YUMREPO \<Longrightarrow> interruptible handle \<Longrightarrow>
     \<not> sigaction_ok w \<Longrightarrow>
     lr_download_packages w handle st targets flags cur =
       Returned False
         (Some \<lparr>gerror_domain = LR_PACKAGE_DOWNLOADER_ERROR, gerror_code = LRE_SIGACTION,
                gerror_message = ''Cannot set Librepo SIGINT handler''\<rparr>) st cur []"
  by (simp_all add: lr_download_packages_def g_set_error_def)

subsection \<open>The store and the trace after a call that reached the loop\<close>

lemma reached_trace:
  "engine_calls ((if i then [EvSigactionInstall] else [])
          @ EvPrepareInternalMirrorlist # concat (map (\<lambda>a. check_events w (st a)) targets)
          @ EvDownload dts ff # (if i then [EvSigactionRestore cur] else [])) = [(dts, ff)]"
  "restorations ((if i then [EvSigactionInstall] else [])
          @ EvPrepareInternalMirrorlist # concat (map (\<lambda>a. check_events w (st a)) targets)
          @ EvDownload dts ff # (if i then [EvSigactionRestore cur] else []))
     = (if i then [cur] else [])"
  "installations ((if i then [EvSigactionInstall] else [])
          @ EvPrepareInternalMirrorlist # concat (map (\<lambda>a. check_events w (st a)) targets)
          @ EvDownload dts ff # (if i then [EvSigactionRestore cur] else []))
     = (if i then 1 else 0)"
  by (simp_all add: engine_calls_append restorations_append installations_append checks_quiet)

lemma copy_statuses_local_path:
  "local_path (copy_statuses st dts a) = local_path (st a)"
proof -
  have "local_path ((copy_statuses st dts a)\<lparr>err := None\<rparr>) = local_path ((st a)\<lparr>err := None\<rparr>)"
    by (simp only: copy_statuses_keeps_fields)
  then show ?thesis by simp
qed

lemma copy_annotated_untouched:
  assumes "\<forall>k<length dts. dt_userdata (dts ! k) = a \<longrightarrow> errs k = None"
  shows "copy_statuses st (annotate 0 errs dts) a = st a"
proof (rule copy_statuses_untouched)
  show "\<forall>dt\<in>set (annotate 0 errs dts). dt_userdata dt = a \<longrightarrow> dt_err dt = None"
    using assms by (auto simp: in_set_conv_nth length_annotate annotate_nth)
qed

lemma copy_annotated_recorded:
  assumes "\<exists>k<length dts. dt_userdata (dts ! k) = a \<and> errs k \<noteq> None"
  shows "\<exists>k<length dts. dt_userdata (dts ! k) = a \<and> errs k \<noteq> None
           \<and> err (copy_statuses st (annotate 0 errs dts) a) = errs k"
proof -
  from assms obtain k where k: "k < length dts" "dt_userdata (dts ! k) = a" "errs k \<noteq> None"
    by blast
  then have "annotate 0 errs dts ! k \<in> set (annotate 0 errs dts)"
    by (simp add: length_annotate)
  with k have "\<exists>dt\<in>set (annotate 0 errs dts). dt_userdata dt = a \<and> dt_err dt \<noteq> None"
    by (auto simp: annotate_nth intro!: bexI [where x = "annotate 0 errs dts ! k"])
  from copy_statuses_recorded [OF this, of st]
  obtain dt where dt: "dt \<in> set (annotate 0 errs dts)" "dt_userdata dt = a" "dt_err dt \<noteq> None"
    "err (copy_statuses st (annotate 0 errs dts) a) = dt_err dt"
    by blast
  from dt(1) obtain j where j: "j < length dts" "dt = annotate 0 errs dts ! j"
    by (auto simp: in_set_conv_nth length_annotate)
  with dt show ?thesis
    by (auto simp: annotate_nth intro!: exI [where x = j])
qed

lemma skipped_not_listed:
  "skips w (st a) \<Longrightarrow> a \<notin> dt_userdata ` set (download_list w st targets)"
proof -
  assume s: "skips w (st a)"
  have "dt_userdata ` set (download_list w st targets)
          = set (map dt_userdata (download_list w st targets))"
    by simp
  also have "\<dots> = set (filter (\<lambda>a. \<not> skips w (st a)) targets)"
    by (simp only: userdata_download_list)
  finally show ?thesis using s by simp
qed

lemma unskipped_listed:
  assumes "a \<in> set targets" and "\<not> skips w (st a)"
  shows "downloadtarget_for w (st a) a \<in> set (download_list w st targets)"
  using assms by (simp add: download_list_def)

lemma final_store_skipped:
  assumes "a \<in> set targets" and "skips w (st a)"
  shows "copy_statuses (\<lambda>a. if a \<in> set targets then prepared w (st a) else st a)
           (annotate 0 errs (download_list w st targets)) a = prepared w (st a)"
proof -
  have "\<forall>k<length (download_list w st targets).
          dt_userdata (download_list w st targets ! k) = a \<longrightarrow> errs k = None"
    using skipped_not_listed [of w st a targets] assms(2) by (metis imageI nth_mem)
  from copy_annotated_untouched [OF this] assms(1) show ?thesis by simp
qed

subsection \<open>Further facts used below\<close>

lemma skips_iff:
  "skips w pt \<longleftrightarrow>
     (\<exists>chk. checksum pt = Some chk \<and> g_access_r_ok w (destination_filename w pt)
        \<and> checksum_type pt \<noteq> LR_CHECKSUM_UNKNOWN
        \<and> open_rdonly_ok w (destination_filename w pt)
        \<and> fst (lr_checksum_fd_cmp w (checksum_type pt) (destination_filename w pt) chk)
        \<and> snd (lr_checksum_fd_cmp w (checksum_type pt) (destination_filename w pt) chk))"
  by (auto simp: skips_def already_downloaded_def split: option.splits prod.splits)

lemma prepared_fields:
  "local_path (prepared w pt) = Some (destination_filename w pt)"
  "err (prepared w pt) = (if skips w pt then Some ''Already downloaded'' else err pt)"
  by (simp_all add: prepared_def)

lemma engine_calls_batch:
  "engine_calls (trace (lr_download_packages w handle st targets flags cur)) =
     (if targets \<noteq> [] \<and> reaches_prepare w handle
      then [(download_list w st targets, failfast_of w flags)]
      else [])"
proof (cases "targets \<noteq> [] \<and> reaches_prepare w handle")
  case True
  then show ?thesis
    by (simp add: batch_reached reached_trace)
next
  case False
  show ?thesis
  proof (cases "targets = []")
    case True
    then show ?thesis by (simp add: batch_not_started)
  next
    case nonempty: False
    show ?thesis
    proof (cases "repotype handle = LR_YUMREPO")
      case yum: True
      show ?thesis
      proof (cases "interruptible handle \<and> \<not> sigaction_ok w")
        case True
        with nonempty yum show ?thesis
          by (simp add: batch_not_started reaches_prepare_def)
      next
        case sig: False
        with False nonempty yum
        have failed: "\<not> fst (lr_handle_prepare_internal_mirrorlist w handle None)"
          by (auto simp: reaches_prepare_def)
        from sig have "interruptible handle \<longrightarrow> sigaction_ok w" by blast
        from batch_mirrorlist_failed [OF nonempty yum this failed, of st flags cur] False
        show ?thesis by simp
      qed
    next
      case False
      with nonempty show ?thesis
        by (simp add: batch_not_started reaches_prepare_def)
    qed
  qed
qed

lemma prepare_targets_err:
  "err (fst (prepare_targets w st [] [] targets) a) =
     (if a \<in> set targets \<and> skips w (st a) then Some ''Already downloaded'' else err (st a))"
  by (simp add: prepare_targets_closed prepared_fields)

lemma unchecked_quiet:
  "no_checksum_configured pt \<Longrightarrow> already_downloaded w pt lp = (False, [])"
  by (auto simp: no_checksum_configured_def already_downloaded_def split: option.splits)

lemma not_skipped:
  "no_checksum_configured pt \<or> check_fails w pt \<Longrightarrow> \<not> skips w pt"
  by (auto simp: skips_iff no_checksum_configured_def check_fails_def Let_def
        split: option.splits prod.splits)

lemma lr_download_package_started:
  assumes "malloc_ok w"
  shows "lr_download_package w handle rel dst ct chk es burl res cur =
     (case lr_download_packages w handle
             (\<lambda>_. \<lparr>relative_url = rel,
                    dest = (case dst of None \<Rightarrow> destdir handle | Some d \<Rightarrow> Some d),
                    base_url = burl, checksum_type = ct, checksum = chk, expectedsize = es,
                    resume = res, progresscb = user_cb handle, cbdata = user_data handle,
                    local_path = None, err = None\<rparr>)
             [0] (LR_PACKAGEDOWNLOAD_FAILFAST w) cur of
        Aborted tr \<Rightarrow> Aborted tr
      | Returned r cell st' cur' tr \<Rightarrow> Returned r cell () cur' tr)"
  using assms by (simp add: lr_download_package_def lr_packagetarget_new_def Let_def)

subsection \<open>The concrete batch evaluated\<close>

lemma demo_paths:
  "destination_filename demo_world demo_foo = ''/tmp/repo/foo-1.0.rpm''"
  "destination_filename demo_world demo_bar = ''bar-2.0.rpm''"
  "destination_filename demo_world demo_baz = ''/tmp/out.rpm''"
  by (simp_all add: destination_filename_def demo_world_def demo_foo_def demo_bar_def
        demo_baz_def g_path_get_basename_def g_build_filename_def g_build_path_step_def
        is_dir_separator_def Let_def)

lemma demo_skips:
  "skips demo_world demo_foo" "\<not> skips demo_world demo_bar" "\<not> skips demo_world demo_baz"
  by (simp_all add: skips_def already_downloaded_def demo_paths)
     (simp_all add: demo_world_def demo_foo_def demo_bar_def demo_baz_def)

lemma demo_reaches: "reaches_prepare demo_world demo_handle"
  by (simp add: reaches_prepare_def demo_world_def demo_handle_def)

lemma demo_download_list:
  "download_list demo_world demo_store [10, 20, 30] =
     [downloadtarget_for demo_world demo_bar 20, downloadtarget_for demo_world demo_baz 30]"
  by (simp add: download_list_def demo_store_def demo_skips)

lemma demo_engine_errs:
  "engine_errs demo_world demo_handle dts ff = (\<lambda>i. if i = 1 then Some ''Not found'' else None)"
  by (simp add: engine_errs_def engine_result_def demo_world_def)

section \<open>The claims\<close>

subsection \<open>C1: a verified local copy is skipped\<close>

text \<open>
  Claim C1. In a call that reaches the loop over the targets, take a package target of
  the list whose resolved local path is readable, whose checksum is set with a type other
  than \<open>LR_CHECKSUM_UNKNOWN\<close>, whose file opens, and for which
  \<open>lr_checksum_fd_cmp\<close> returns true and reports a match. The call returns, the
  \<open>err\<close> field of that target is \<open>"Already downloaded"\<close>, the engine is called
  once, and no download target of the list it receives points back to that target: the
  list holds exactly the targets that do not take the \<open>continue\<close>, and this one
  takes it.
\<close>

theorem already_downloaded_is_skipped:
  assumes "reaches_prepare w handle" and "a \<in> set targets"
    and "g_access_r_ok w (destination_filename w (st a))"
    and "checksum (st a) = Some chk"
    and "checksum_type (st a) \<noteq> LR_CHECKSUM_UNKNOWN"
    and "open_rdonly_ok w (destination_filename w (st a))"
    and "lr_checksum_fd_cmp w (checksum_type (st a)) (destination_filename w (st a)) chk
           = (True, True)"
  shows "\<exists>r cell st' tr dts ff.
           lr_download_packages w handle st targets flags cur = Returned r cell st' cur tr
         \<and> err (st' a) = Some ''Already downloaded''
         \<and> engine_calls tr = [(dts, ff)]
         \<and> a \<notin> dt_userdata ` set dts
         \<and> map dt_userdata dts = filter (\<lambda>b. \<not> skips w (st b)) targets"
proof -
  from assms(2) have nonempty: "targets \<noteq> []" by auto
  from assms(3-7) have s: "skips w (st a)" by (simp add: skips_iff)
  let ?dts = "download_list w st targets"
  let ?errs = "engine_errs w handle ?dts (failfast_of w flags)"
  have "err (copy_statuses (\<lambda>a. if a \<in> set targets then prepared w (st a) else st a)
              (annotate 0 ?errs ?dts) a) = Some ''Already downloaded''"
    by (simp add: final_store_skipped [where st = st and a = a, OF assms(2) s] prepared_fields s)
  moreover note skipped_not_listed [of w st a targets] s userdata_download_list [of w st targets]
  ultimately show ?thesis
    unfolding batch_reached [OF nonempty assms(1)]
    by (simp add: reached_trace)
qed

text \<open>
  C1 at the concrete batch: \<open>foo\<close> (pointer 10) is marked, and the engine receives
  the targets of pointers 20 and 30 only.
\<close>

theorem already_downloaded_is_skipped_witness:
  "reaches_prepare demo_world demo_handle \<and> (10 :: addr) \<in> set [10, 20, 30]
   \<and> g_access_r_ok demo_world (destination_filename demo_world (demo_store 10))
   \<and> checksum (demo_store 10) = Some ''abc''
   \<and> checksum_type (demo_store 10) \<noteq> LR_CHECKSUM_UNKNOWN
   \<and> open_rdonly_ok demo_world (destination_filename demo_world (demo_store 10))
   \<and> lr_checksum_fd_cmp demo_world (checksum_type (demo_store 10))
        (destination_filename demo_world (demo_store 10)) ''abc'' = (True, True)
   \<and> err (store_of (lr_download_packages demo_world demo_handle demo_store [10, 20, 30] 0
         SIG_DFL) 10) = Some ''Already downloaded''
   \<and> map (map dt_userdata \<circ> fst)
        (engine_calls (trace (lr_download_packages demo_world demo_handle demo_store
           [10, 20, 30] 0 SIG_DFL))) = [[20, 30]]"
proof -
  have h: "reaches_prepare demo_world demo_handle" "(10 :: addr) \<in> set [10, 20, 30]"
    "g_access_r_ok demo_world (destination_filename demo_world (demo_store 10))"
    "checksum (demo_store 10) = Some ''abc''"
    "checksum_type (demo_store 10) \<noteq> LR_CHECKSUM_UNKNOWN"
    "open_rdonly_ok demo_world (destination_filename demo_world (demo_store 10))"
    "lr_checksum_fd_cmp demo_world (checksum_type (demo_store 10))
        (destination_filename demo_world (demo_store 10)) ''abc'' = (True, True)"
    by (simp_all add: demo_reaches demo_store_def demo_paths)
       (simp_all add: demo_world_def demo_foo_def)
  have f: "filter (\<lambda>b. \<not> skips demo_world (demo_store b)) [10, 20, 30] = [20, 30]"
    by (simp add: demo_store_def demo_skips)
  from already_downloaded_is_skipped [where st = demo_store and a = 10 and flags = 0
      and cur = SIG_DFL, OF h] h f
  show ?thesis by auto
qed

subsection \<open>C2: an interrupt overrides the result\<close>

text \<open>
  Claim C2. On an interruptible handle whose SIGINT handler was installed (non-empty
  list, supported repo type, \<open>sigaction\<close> succeeded), if \<open>lr_interrupt\<close> is set when
  the handler is restored, the call returns false and the caller's error cell holds
  exactly the one error of code \<open>LRE_INTERRUPTED\<close>, whatever the preparation of the
  mirrorlist and the engine returned and whatever error they left in the cell.
\<close>

theorem interrupt_takes_precedence:
  assumes "targets \<noteq> []" and "repotype handle = LR_YUMREPO"
    and "interruptible handle" and "sigaction_ok w" and "lr_interrupt w"
  shows "\<exists>st' tr. lr_download_packages w handle st targets flags cur =
           Returned False
             (Some \<lparr>gerror_domain = LR_PACKAGE_DOWNLOADER_ERROR, gerror_code = LRE_INTERRUPTED,
                    gerror_message = ''Insterupted by a SIGINT signal''\<rparr>) st' cur tr"
proof (cases "fst (lr_handle_prepare_internal_mirrorlist w handle None)")
  case True
  with assms have "reaches_prepare w handle" by (simp add: reaches_prepare_def)
  from batch_reached [OF assms(1) this, of st flags cur] assms(3,5)
  show ?thesis by (simp add: interrupted_error_def)
next
  case False
  from batch_mirrorlist_failed [OF assms(1,2) _ False, of st flags cur] assms(3,4,5)
  show ?thesis by (simp add: interrupted_error_def)
qed

text \<open>
  C2 at the concrete batch with the flag set: the engine fails with its own error, and
  the call reports the interruption instead.
\<close>

theorem interrupt_takes_precedence_witness:
  "[10, 20, 30] \<noteq> ([] :: addr list) \<and> repotype demo_handle = LR_YUMREPO
   \<and> interruptible demo_handle \<and> sigaction_ok (demo_world\<lparr>lr_interrupt := True\<rparr>)
   \<and> lr_interrupt (demo_world\<lparr>lr_interrupt := True\<rparr>)
   \<and> ret (lr_download_packages (demo_world\<lparr>lr_interrupt := True\<rparr>) demo_handle demo_store
            [10, 20, 30] 0 SIG_DFL) = False
   \<and> gerr (lr_download_packages (demo_world\<lparr>lr_interrupt := True\<rparr>) demo_handle demo_store
            [10, 20, 30] 0 SIG_DFL)
       = Some \<lparr>gerror_domain = LR_PACKAGE_DOWNLOADER_ERROR, gerror_code = LRE_INTERRUPTED,
               gerror_message = ''Insterupted by a SIGINT signal''\<rparr>"
proof -
  have h: "[10, 20, 30] \<noteq> ([] :: addr list)" "repotype demo_handle = LR_YUMREPO"
    "interruptible demo_handle" "sigaction_ok (demo_world\<lparr>lr_interrupt := True\<rparr>)"
    "lr_interrupt (demo_world\<lparr>lr_interrupt := True\<rparr>)"
    by (simp_all add: demo_world_def demo_handle_def)
  from interrupt_takes_precedence [OF h, of demo_store 0 SIG_DFL] h
  show ?thesis by auto
qed

subsection \<open>C3: the destination filename\<close>

text \<open>
  Claim C3. In a call that reaches the loop, every package target of the list ends with
  \<open>local_path\<close> set to: the destination joined with the basename of the relative URL
  when the destination is an existing directory; the destination itself when it is set
  and is anything else; the basename of the relative URL when no destination is set.
  For the relative URL \<^verbatim>\<open>pkgs/foo-1.0.rpm\<close> this gives \<^verbatim>\<open>/tmp/repo/foo-1.0.rpm\<close> for
  the existing directory \<^verbatim>\<open>/tmp/repo\<close>, \<^verbatim>\<open>/tmp/out.rpm\<close> for the destination
  \<^verbatim>\<open>/tmp/out.rpm\<close> that is no directory, and \<^verbatim>\<open>foo-1.0.rpm\<close> without destination.
\<close>

theorem destination_resolution:
  assumes "reaches_prepare w handle" and "a \<in> set targets"
  shows "\<exists>r cell st' tr.
           lr_download_packages w handle st targets flags cur = Returned r cell st' cur tr
         \<and> local_path (st' a) =
             Some (case dest (st a) of
                     Some hint \<Rightarrow>
                       if g_file_test_is_dir w hint
                       then g_build_filename [hint, g_path_get_basename (relative_url (st a))]
                       else hint
                   | None \<Rightarrow> g_path_get_basename (relative_url (st a)))
         \<and> (relative_url (st a) = ''pkgs/foo-1.0.rpm'' \<longrightarrow>
               (dest (st a) = Some ''/tmp/repo'' \<and> g_file_test_is_dir w ''/tmp/repo''
                  \<longrightarrow> local_path (st' a) = Some ''/tmp/repo/foo-1.0.rpm'')
             \<and> (dest (st a) = Some ''/tmp/out.rpm'' \<and> \<not> g_file_test_is_dir w ''/tmp/out.rpm''
                  \<longrightarrow> local_path (st' a) = Some ''/tmp/out.rpm'')
             \<and> (dest (st a) = None \<longrightarrow> local_path (st' a) = Some ''foo-1.0.rpm''))"
proof -
  from assms(2) have nonempty: "targets \<noteq> []" by auto
  have base: "g_path_get_basename ''pkgs/foo-1.0.rpm'' = ''foo-1.0.rpm''"
    by (simp add: g_path_get_basename_def is_dir_separator_def)
  have build: "g_build_filename [''/tmp/repo'', ''foo-1.0.rpm''] = ''/tmp/repo/foo-1.0.rpm''"
    by (simp add: g_build_filename_def g_build_path_step_def is_dir_separator_def Let_def)
  have "local_path (copy_statuses (\<lambda>a. if a \<in> set targets then prepared w (st a) else st a)
              (annotate 0
                 (engine_errs w handle (download_list w st targets) (failfast_of w flags))
                 (download_list w st targets)) a)
          = Some (destination_filename w (st a))"
    using assms(2) by (simp add: copy_statuses_local_path prepared_fields)
  then show ?thesis
    unfolding batch_reached [OF nonempty assms(1)]
    by (auto simp: destination_filename_def base build)
qed

text \<open>
  C3 at the concrete batch: one target for each of the three cases.
\<close>

theorem destination_resolution_witness:
  "reaches_prepare demo_world demo_handle
   \<and> (10 :: addr) \<in> set [10, 20, 30] \<and> (20 :: addr) \<in> set [10, 20, 30]
   \<and> (30 :: addr) \<in> set [10, 20, 30]
   \<and> local_path (store_of (lr_download_packages demo_world demo_handle demo_store [10, 20, 30] 0
         SIG_DFL) 10) = Some ''/tmp/repo/foo-1.0.rpm''
   \<and> local_path (store_of (lr_download_packages demo_world demo_handle demo_store [10, 20, 30] 0
         SIG_DFL) 20) = Some ''bar-2.0.rpm''
   \<and> local_path (store_of (lr_download_packages demo_world demo_handle demo_store [10, 20, 30] 0
         SIG_DFL) 30) = Some ''/tmp/out.rpm''"
proof -
  have h: "reaches_prepare demo_world demo_handle" "(10 :: addr) \<in> set [10, 20, 30]"
    "(20 :: addr) \<in> set [10, 20, 30]" "(30 :: addr) \<in> set [10, 20, 30]"
    by (simp_all add: demo_reaches)
  have d: "dest (demo_store 10) = Some ''/tmp/repo''" "dest (demo_store 20) = None"
    "dest (demo_store 30) = Some ''/tmp/out.rpm''"
    "relative_url (demo_store 10) = ''pkgs/foo-1.0.rpm''"
    "relative_url (demo_store 20) = ''pkgs/bar-2.0.rpm''"
    "g_file_test_is_dir demo_world ''/tmp/repo''"
    "\<not> g_file_test_is_dir demo_world ''/tmp/out.rpm''"
    "g_path_get_basename ''pkgs/bar-2.0.rpm'' = ''bar-2.0.rpm''"
    by (simp_all add: demo_store_def demo_foo_def demo_bar_def demo_baz_def demo_world_def
          g_path_get_basename_def is_dir_separator_def)
  let ?out = "lr_download_packages demo_world demo_handle demo_store [10, 20, 30] 0 SIG_DFL"
  from destination_resolution [where st = demo_store and a = 10 and flags = 0 and cur = SIG_DFL,
      OF h(1) h(2)]
  have a: "local_path (store_of ?out 10) = Some ''/tmp/repo/foo-1.0.rpm''"
    by (auto simp: d)
  from destination_resolution [where st = demo_store and a = 20 and flags = 0 and cur = SIG_DFL,
      OF h(1) h(3)]
  have b: "local_path (store_of ?out 20) = Some ''bar-2.0.rpm''"
    by (auto simp: d)
  from destination_resolution [where st = demo_store and a = 30 and flags = 0 and cur = SIG_DFL,
      OF h(1) h(4)]
  have c: "local_path (store_of ?out 30) = Some ''/tmp/out.rpm''"
    by (auto simp: d)
  from h a b c show ?thesis by simp
qed

subsection \<open>C4: the destination directory of the handle\<close>

text \<open>
  Claim C4 says that every target of a batch without destination falls back to the
  destination directory of the handle. \<open>lr_download_packages\<close> never reads
  \<open>destdir\<close>: in the concrete batch the handle has the existing directory
  \<^verbatim>\<open>/tmp/repo\<close> as \<open>destdir\<close> and \<open>bar\<close> (pointer 20) has no destination; the
  resolution with the fallback gives \<^verbatim>\<open>/tmp/repo/bar-2.0.rpm\<close>, the call stores
  \<^verbatim>\<open>bar-2.0.rpm\<close>.
\<close>

theorem batch_ignores_destdir_counterexample:
  "dest (demo_store 20) = None \<and> destdir demo_handle = Some ''/tmp/repo''
   \<and> g_file_test_is_dir demo_world ''/tmp/repo''
   \<and> spec_destination_with_handle_default demo_world demo_handle (demo_store 20)
       = ''/tmp/repo/bar-2.0.rpm''
   \<and> local_path (store_of (lr_download_packages demo_world demo_handle demo_store [10, 20, 30] 0
         SIG_DFL) 20) = Some ''bar-2.0.rpm''
   \<and> local_path (store_of (lr_download_packages demo_world demo_handle demo_store [10, 20, 30] 0
         SIG_DFL) 20)
       \<noteq> Some (spec_destination_with_handle_default demo_world demo_handle (demo_store 20))"
proof -
  have s: "spec_destination_with_handle_default demo_world demo_handle (demo_store 20)
       = ''/tmp/repo/bar-2.0.rpm''"
    by (simp add: spec_destination_with_handle_default_def destination_filename_def
          demo_store_def demo_bar_def demo_handle_def demo_world_def g_path_get_basename_def
          g_build_filename_def g_build_path_step_def is_dir_separator_def Let_def)
  have "local_path (store_of (lr_download_packages demo_world demo_handle demo_store
          [10, 20, 30] 0 SIG_DFL) 20) = Some (destination_filename demo_world (demo_store 20))"
    by (simp add: batch_reached [OF _ demo_reaches] copy_statuses_local_path prepared_fields)
  then have l: "local_path (store_of (lr_download_packages demo_world demo_handle demo_store
          [10, 20, 30] 0 SIG_DFL) 20) = Some ''bar-2.0.rpm''"
    by (simp add: demo_store_def demo_paths)
  show ?thesis
    unfolding l s
    by (simp add: demo_store_def demo_bar_def demo_handle_def demo_world_def)
qed

text \<open>
  Claim C4 as amended. The fallback is made by \<open>lr_download_package\<close> alone: called
  without destination on a handle that reaches the loop, it resolves the one target as if
  the destination were \<open>destdir\<close> of the handle (joined with the basename when that is
  an existing directory, verbatim when it is anything else, the bare basename when the
  handle has none), and that path is the one handed to the engine unless the target is
  skipped. A target without destination in a list given to \<open>lr_download_packages\<close>
  resolves to the bare basename of its relative URL, whatever \<open>destdir\<close> is.
\<close>

theorem destdir_fallback_in_single_call_only:
  "(malloc_ok w \<and> reaches_prepare w handle \<longrightarrow>
      (let pt = \<lparr>relative_url = rel, dest = destdir handle, base_url = burl,
                  checksum_type = ct, checksum = chk, expectedsize = es, resume = res,
                  progresscb = user_cb handle, cbdata = user_data handle,
                  local_path = None, err = None\<rparr>;
           lp = (case destdir handle of
                   Some d \<Rightarrow>
                     if g_file_test_is_dir w d
                     then g_build_filename [d, g_path_get_basename rel]
                     else d
                 | None \<Rightarrow> g_path_get_basename rel)
       in destination_filename w pt = lp
          \<and> (\<exists>r cell tr.
                lr_download_package w handle rel None ct chk es burl res cur
                  = Returned r cell () cur tr
              \<and> map (map dt_fn \<circ> fst) (engine_calls tr) = [if skips w pt then [] else [lp]]
)))
   \<and> (reaches_prepare w handle \<and> a \<in> set targets \<and> dest (st a) = None \<longrightarrow>
        (\<exists>r cell st' tr.
           lr_download_packages w handle st targets flags cur = Returned r cell st' cur tr
         \<and> local_path (st' a) = Some (g_path_get_basename (relative_url (st a)))))"
proof (intro conjI impI)
  assume h: "malloc_ok w \<and> reaches_prepare w handle"
  define pt where "pt = \<lparr>relative_url = rel, dest = destdir handle, base_url = burl,
                  checksum_type = ct, checksum = chk, expectedsize = es, resume = res,
                  progresscb = user_cb handle, cbdata = user_data handle,
                  local_path = None, err = None\<rparr>"
  define lp where "lp = (case destdir handle of
                   Some d \<Rightarrow>
                     if g_file_test_is_dir w d
                     then g_build_filename [d, g_path_get_basename rel]
                     else d
                 | None \<Rightarrow> g_path_get_basename rel)"
  have lp: "destination_filename w pt = lp"
    by (simp add: destination_filename_def pt_def lp_def split: option.splits)
  have dl: "download_list w (\<lambda>_. pt) [0] = (if skips w pt then [] else [downloadtarget_for w pt 0])"
    by (simp add: download_list_def)
  have fn: "dt_fn (downloadtarget_for w pt 0) = lp"
    by (simp add: downloadtarget_for_def lr_downloadtarget_new_def lp)
  have ff: "failfast_of w (LR_PACKAGEDOWNLOAD_FAILFAST w) = (LR_PACKAGEDOWNLOAD_FAILFAST w \<noteq> 0)"
    by (simp add: failfast_of_def)
  have ne: "[0 :: addr] \<noteq> []" by simp
  from h have m: "malloc_ok w" and r: "reaches_prepare w handle" by simp_all
  have "lr_download_package w handle rel None ct chk es burl res cur =
     (case lr_download_packages w handle (\<lambda>_. pt) [0] (LR_PACKAGEDOWNLOAD_FAILFAST w) cur of
        Aborted tr \<Rightarrow> Aborted tr
      | Returned r cell st' cur' tr \<Rightarrow> Returned r cell () cur' tr)"
    unfolding pt_def by (simp add: lr_download_package_started [OF m])
  then have "\<exists>r cell tr.
                lr_download_package w handle rel None ct chk es burl res cur
                  = Returned r cell () cur tr
              \<and> map (map dt_fn \<circ> fst) (engine_calls tr) = [if skips w pt then [] else [lp]]
"
    unfolding batch_reached [OF ne r]
    by (simp add: dl ff fn engine_calls_append check_events_quiet)
  with lp show "let pt = \<lparr>relative_url = rel, dest = destdir handle, base_url = burl,
                  checksum_type = ct, checksum = chk, expectedsize = es, resume = res,
                  progresscb = user_cb handle, cbdata = user_data handle,
                  local_path = None, err = None\<rparr>;
           lp = (case destdir handle of
                   Some d \<Rightarrow>
                     if g_file_test_is_dir w d
                     then g_build_filename [d, g_path_get_basename rel]
                     else d
                 | None \<Rightarrow> g_path_get_basename rel)
       in destination_filename w pt = lp
          \<and> (\<exists>r cell tr.
                lr_download_package w handle rel None ct chk es burl res cur
                  = Returned r cell () cur tr
              \<and> map (map dt_fn \<circ> fst) (engine_calls tr) = [if skips w pt then [] else [lp]]
)"
    unfolding Let_def pt_def [symmetric] lp_def [symmetric] by blast
next
  assume h: "reaches_prepare w handle \<and> a \<in> set targets \<and> dest (st a) = None"
  then have ne: "targets \<noteq> []" by auto
  from h have "local_path (copy_statuses (\<lambda>a. if a \<in> set targets then prepared w (st a) else st a)
              (annotate 0
                 (engine_errs w handle (download_list w st targets) (failfast_of w flags))
                 (download_list w st targets)) a)
          = Some (g_path_get_basename (relative_url (st a)))"
    by (simp add: copy_statuses_local_path prepared_fields destination_filename_def)
  then show "\<exists>r cell st' tr.
           lr_download_packages w handle st targets flags cur = Returned r cell st' cur tr
         \<and> local_path (st' a) = Some (g_path_get_basename (relative_url (st a)))"
    using h unfolding batch_reached [OF ne conjunct1 [OF h]] by simp
qed

text \<open>
  C4 as amended, on the handle with \<open>destdir\<close> \<^verbatim>\<open>/tmp/repo\<close>: the single call hands
  \<^verbatim>\<open>/tmp/repo/bar-2.0.rpm\<close> to the engine, the batch stores \<^verbatim>\<open>bar-2.0.rpm\<close>.
\<close>

theorem destdir_fallback_in_single_call_only_witness:
  "malloc_ok demo_world \<and> reaches_prepare demo_world demo_handle
   \<and> (20 :: addr) \<in> set [10, 20, 30] \<and> dest (demo_store 20) = None
   \<and> map (map dt_fn \<circ> fst)
       (engine_calls (trace (lr_download_package demo_world demo_handle ''pkgs/bar-2.0.rpm'' None
          LR_CHECKSUM_UNKNOWN None 0 None True SIG_DFL))) = [[''/tmp/repo/bar-2.0.rpm'']]
   \<and> local_path (store_of (lr_download_packages demo_world demo_handle demo_store [10, 20, 30] 0
         SIG_DFL) 20) = Some ''bar-2.0.rpm''"
proof -
  have h: "malloc_ok demo_world \<and> reaches_prepare demo_world demo_handle"
    by (simp add: demo_reaches) (simp add: demo_world_def)
  have g: "reaches_prepare demo_world demo_handle \<and> (20 :: addr) \<in> set [10, 20, 30]
      \<and> dest (demo_store 20) = None"
    by (simp add: demo_reaches demo_store_def demo_bar_def)
  have d: "destdir demo_handle = Some ''/tmp/repo''" "g_file_test_is_dir demo_world ''/tmp/repo''"
    "g_build_filename [''/tmp/repo'', ''bar-2.0.rpm''] = ''/tmp/repo/bar-2.0.rpm''"
    "relative_url (demo_store 20) = ''pkgs/bar-2.0.rpm''"
    "g_path_get_basename ''pkgs/bar-2.0.rpm'' = ''bar-2.0.rpm''"
    by (simp_all add: demo_handle_def demo_world_def demo_store_def demo_bar_def
          g_path_get_basename_def g_build_filename_def g_build_path_step_def
          is_dir_separator_def Let_def)
  note t = destdir_fallback_in_single_call_only [where w = demo_world and handle = demo_handle
      and rel = "''pkgs/bar-2.0.rpm''" and ct = LR_CHECKSUM_UNKNOWN and chk = None and es = 0
      and burl = None and res = True and cur = SIG_DFL and st = demo_store and a = 20
      and targets = "[10, 20, 30]" and flags = 0]
  from t [THEN conjunct1, rule_format, OF h]
  have a: "map (map dt_fn \<circ> fst)
       (engine_calls (trace (lr_download_package demo_world demo_handle ''pkgs/bar-2.0.rpm'' None
          LR_CHECKSUM_UNKNOWN None 0 None True SIG_DFL))) = [[''/tmp/repo/bar-2.0.rpm'']]"
    unfolding Let_def by (auto simp: d skips_iff)
  from t [THEN conjunct2, rule_format, OF g]
  have b: "local_path (store_of (lr_download_packages demo_world demo_handle demo_store
         [10, 20, 30] 0 SIG_DFL) 20) = Some ''bar-2.0.rpm''"
    by (auto simp: d)
  from h g a b show ?thesis by simp
qed

subsection \<open>C5: without a verified copy the target is downloaded\<close>

text \<open>
  Claim C5. In a call that reaches the loop, take a package target of the list that has
  no checksum configured (no value, or type \<open>LR_CHECKSUM_UNKNOWN\<close>), or whose check
  fails (the path is not readable, the file does not open, or the verifier does not
  return true with a match). The call returns with the trace written out below, in which
  the targets are checked in the order of the list before the one call of the engine.
  Without a configured checksum the check opens no file and calls no verifier. The list
  handed to the engine holds a download target that points back to the package target,
  carries its \<open>resume\<close> flag unchanged and its resolved path, and has no error. The
  loop leaves the \<open>err\<close> field of the package target as it was.
\<close>

theorem unverified_is_downloaded:
  assumes "reaches_prepare w handle" and "a \<in> set targets"
    and "no_checksum_configured (st a) \<or> check_fails w (st a)"
  shows "\<exists>r cell st' tr.
      lr_download_packages w handle st targets flags cur = Returned r cell st' cur tr
    \<and> tr = (if interruptible handle then [EvSigactionInstall] else [])
            @ EvPrepareInternalMirrorlist # concat (map (\<lambda>b. check_events w (st b)) targets)
            @ EvDownload (download_list w st targets) (failfast_of w flags)
            # (if interruptible handle then [EvSigactionRestore cur] else [])
    \<and> (no_checksum_configured (st a) \<longrightarrow>
          already_downloaded w (st a) (destination_filename w (st a)) = (False, [])
          \<and> check_events w (st a) = [])
    \<and> (\<exists>dt \<in> set (download_list w st targets).
          dt_userdata dt = a \<and> dt_resume dt = resume (st a)
          \<and> dt_fn dt = destination_filename w (st a) \<and> dt_err dt = None)
    \<and> err (fst (prepare_targets w st [] [] targets) a) = err (st a)"
proof -
  from assms(2) have nonempty: "targets \<noteq> []" by auto
  from assms(3) have n: "\<not> skips w (st a)" by (rule not_skipped)
  have "downloadtarget_for w (st a) a \<in> set (download_list w st targets)"
    using assms(2) n by (simp add: download_list_def)
  moreover have "dt_userdata (downloadtarget_for w (st a) a) = a"
    "dt_resume (downloadtarget_for w (st a) a) = resume (st a)"
    "dt_fn (downloadtarget_for w (st a) a) = destination_filename w (st a)"
    "dt_err (downloadtarget_for w (st a) a) = None"
    by (simp_all add: downloadtarget_for_def lr_downloadtarget_new_def)
  ultimately have listed: "\<exists>dt \<in> set (download_list w st targets).
          dt_userdata dt = a \<and> dt_resume dt = resume (st a)
          \<and> dt_fn dt = destination_filename w (st a) \<and> dt_err dt = None"
    by blast
  show ?thesis
    unfolding batch_reached [OF nonempty assms(1)]
    using listed n by (simp add: prepare_targets_err unchecked_quiet check_events_def)
qed

text \<open>
  C5 at the concrete batch: \<open>bar\<close> has no checksum and adds nothing to the trace,
  \<open>baz\<close> fails the check, and both reach the engine with \<open>resume\<close> set as
  requested.
\<close>

theorem unverified_is_downloaded_witness:
  "reaches_prepare demo_world demo_handle
   \<and> (20 :: addr) \<in> set [10, 20, 30] \<and> (30 :: addr) \<in> set [10, 20, 30]
   \<and> no_checksum_configured (demo_store 20) \<and> check_fails demo_world (demo_store 30)
   \<and> check_events demo_world (demo_store 20) = []
   \<and> map (\<lambda>dt. (dt_userdata dt, dt_fn dt, dt_resume dt))
        (download_list demo_world demo_store [10, 20, 30])
       = [(20, ''bar-2.0.rpm'', True), (30, ''/tmp/out.rpm'', True)]
   \<and> trace (lr_download_packages demo_world demo_handle demo_store [10, 20, 30] 0 SIG_DFL)
       = [EvSigactionInstall, EvPrepareInternalMirrorlist,
          EvOpen ''/tmp/repo/foo-1.0.rpm'',
          EvChecksumFdCmp (LR_CHECKSUM_ALGO 0) ''/tmp/repo/foo-1.0.rpm'' ''abc'',
          EvClose ''/tmp/repo/foo-1.0.rpm'',
          EvOpen ''/tmp/out.rpm'',
          EvChecksumFdCmp (LR_CHECKSUM_ALGO 0) ''/tmp/out.rpm'' ''def'',
          EvClose ''/tmp/out.rpm'',
          EvDownload (download_list demo_world demo_store [10, 20, 30]) False,
          EvSigactionRestore SIG_DFL]"
proof -
  have h: "reaches_prepare demo_world demo_handle" "(20 :: addr) \<in> set [10, 20, 30]"
    "(30 :: addr) \<in> set [10, 20, 30]"
    by (simp_all add: demo_reaches)
  have n: "no_checksum_configured (demo_store 20)"
    by (simp add: no_checksum_configured_def demo_store_def demo_bar_def)
  have c: "check_fails demo_world (demo_store 30)"
    by (simp add: check_fails_def demo_store_def demo_paths)
       (simp add: demo_world_def demo_baz_def)
  have ev: "check_events demo_world demo_foo =
       [EvOpen ''/tmp/repo/foo-1.0.rpm'',
        EvChecksumFdCmp (LR_CHECKSUM_ALGO 0) ''/tmp/repo/foo-1.0.rpm'' ''abc'',
        EvClose ''/tmp/repo/foo-1.0.rpm'']"
    "check_events demo_world demo_baz =
       [EvOpen ''/tmp/out.rpm'',
        EvChecksumFdCmp (LR_CHECKSUM_ALGO 0) ''/tmp/out.rpm'' ''def'',
        EvClose ''/tmp/out.rpm'']"
    by (simp_all add: check_events_def already_downloaded_def demo_paths)
       (simp_all add: demo_world_def demo_foo_def demo_baz_def)
  have i: "interruptible demo_handle" "failfast_of demo_world 0 = False"
    by (simp_all add: demo_handle_def failfast_of_def)
  let ?out = "lr_download_packages demo_world demo_handle demo_store [10, 20, 30] 0 SIG_DFL"
  from unverified_is_downloaded [where st = demo_store and a = 20 and flags = 0 and cur = SIG_DFL,
      OF h(1) h(2)] n
  have q: "check_events demo_world (demo_store 20) = []"
    and t: "trace ?out = EvSigactionInstall # EvPrepareInternalMirrorlist
          # check_events demo_world demo_foo @ check_events demo_world (demo_store 20)
          @ check_events demo_world demo_baz
          @ [EvDownload (download_list demo_world demo_store [10, 20, 30]) False,
             EvSigactionRestore SIG_DFL]"
    by (auto simp: i demo_store_def)
  have l: "map (\<lambda>dt. (dt_userdata dt, dt_fn dt, dt_resume dt))
        (download_list demo_world demo_store [10, 20, 30])
       = [(20, ''bar-2.0.rpm'', True), (30, ''/tmp/out.rpm'', True)]"
    by (simp add: demo_download_list downloadtarget_for_def lr_downloadtarget_new_def demo_paths)
       (simp add: demo_bar_def demo_baz_def)
  from h n c q l show ?thesis
    unfolding t q ev by simp
qed

subsection \<open>C6: the previous SIGINT handler is restored once\<close>

text \<open>
  Claim C6. Once the handler is installed (interruptible handle, non-empty list,
  supported repo type, \<open>sigaction\<close> succeeded), the call returns, whether the
  preparation of the mirrorlist fails, the engine fails or both succeed. Its trace starts
  with the one installation, holds exactly one restoration, that of the handler found at
  the start, as its last event, and the handler in place after the call is that handler.
\<close>

theorem handler_restored_once:
  assumes "targets \<noteq> []" and "repotype handle = LR_YUMREPO"
    and "interruptible handle" and "sigaction_ok w"
  shows "\<exists>r cell st' tr. lr_download_packages w handle st targets flags cur =
           Returned r cell st' cur tr
         \<and> installations tr = 1 \<and> hd tr = EvSigactionInstall
         \<and> restorations tr = [cur] \<and> last tr = EvSigactionRestore cur"
proof (cases "fst (lr_handle_prepare_internal_mirrorlist w handle None)")
  case True
  with assms have "reaches_prepare w handle" by (simp add: reaches_prepare_def)
  from batch_reached [OF assms(1) this, of st flags cur] assms(3)
  show ?thesis
    by (simp add: engine_calls_append restorations_append installations_append checks_quiet)
next
  case False
  from batch_mirrorlist_failed [OF assms(1,2) _ False, of st flags cur] assms(3,4)
  show ?thesis by auto
qed

text \<open>
  C6 on the path where the preparation of the mirrorlist fails before any target is
  resolved, with a user handler in place at the start.
\<close>

theorem handler_restored_once_witness:
  "[10, 20, 30] \<noteq> ([] :: addr list) \<and> repotype demo_handle = LR_YUMREPO
   \<and> interruptible demo_handle
   \<and> sigaction_ok
        (demo_world\<lparr>lr_handle_prepare_internal_mirrorlist := (\<lambda>h c. (False, Some demo_engine_error))\<rparr>)
   \<and> sigint (lr_download_packages
        (demo_world\<lparr>lr_handle_prepare_internal_mirrorlist := (\<lambda>h c. (False, Some demo_engine_error))\<rparr>)
        demo_handle demo_store [10, 20, 30] 0 (SIG_USER 7)) = SIG_USER 7
   \<and> restorations (trace (lr_download_packages
        (demo_world\<lparr>lr_handle_prepare_internal_mirrorlist := (\<lambda>h c. (False, Some demo_engine_error))\<rparr>)
        demo_handle demo_store [10, 20, 30] 0 (SIG_USER 7))) = [SIG_USER 7]"
proof -
  have h: "[10, 20, 30] \<noteq> ([] :: addr list)" "repotype demo_handle = LR_YUMREPO"
    "interruptible demo_handle"
    "sigaction_ok
       (demo_world\<lparr>lr_handle_prepare_internal_mirrorlist := (\<lambda>h c. (False, Some demo_engine_error))\<rparr>)"
    by (simp_all add: demo_world_def demo_handle_def)
  from handler_restored_once [OF h, of demo_store 0 "SIG_USER 7"] h
  show ?thesis by auto
qed

subsection \<open>C7: the engine receives the targets that are not skipped, in input order\<close>

text \<open>
  Claim C7. Whatever the call, the engine is called at most once: exactly once when the
  list is not empty and the call reaches the loop, never otherwise. The list it then
  receives is built from the input list by dropping the targets that take the
  \<open>continue\<close> and turning each other one into its download target, so the back
  references of the list are the pointers of the targets that are not skipped, in the
  order of the input and with repetitions kept.
\<close>

theorem engine_gets_unskipped_in_order:
  "engine_calls (trace (lr_download_packages w handle st targets flags cur)) =
     (if targets \<noteq> [] \<and> reaches_prepare w handle
      then [(map (\<lambda>a. downloadtarget_for w (st a) a)
               (filter (\<lambda>a. \<not> skips w (st a)) targets),
             failfast_of w flags)]
      else [])
   \<and> map dt_userdata
        (map (\<lambda>a. downloadtarget_for w (st a) a) (filter (\<lambda>a. \<not> skips w (st a)) targets))
       = filter (\<lambda>a. \<not> skips w (st a)) targets"
  using engine_calls_batch [of w handle st targets flags cur]
    userdata_download_list [of w st targets]
  by (simp add: download_list_def)

text \<open>
  C7 at the concrete batch: the engine receives the targets of pointers 20 and 30 with
  their paths, in this order; on a handle of another repo type it is not called.
\<close>

theorem engine_gets_unskipped_in_order_witness:
  "map (map dt_userdata \<circ> fst)
     (engine_calls (trace (lr_download_packages demo_world demo_handle demo_store [10, 20, 30] 0
        SIG_DFL))) = [[20, 30]]
   \<and> map (map dt_fn \<circ> fst)
     (engine_calls (trace (lr_download_packages demo_world demo_handle demo_store [10, 20, 30] 0
        SIG_DFL))) = [[''bar-2.0.rpm'', ''/tmp/out.rpm'']]
   \<and> engine_calls (trace (lr_download_packages demo_world
        (demo_handle\<lparr>repotype := LR_REPOTYPE_OTHER 0\<rparr>) demo_store [10, 20, 30] 0 SIG_DFL)) = []"
proof -
  have f: "filter (\<lambda>b. \<not> skips demo_world (demo_store b)) [10, 20, 30] = [20, 30]"
    by (simp add: demo_store_def demo_skips)
  have n: "\<not> reaches_prepare demo_world (demo_handle\<lparr>repotype := LR_REPOTYPE_OTHER 0\<rparr>)"
    by (simp add: reaches_prepare_def)
  have c: "engine_calls (trace (lr_download_packages demo_world demo_handle demo_store [10, 20, 30] 0
      SIG_DFL)) =
      [(map (\<lambda>a. downloadtarget_for demo_world (demo_store a) a) [20, 30],
        failfast_of demo_world 0)]"
    using engine_gets_unskipped_in_order [of demo_world demo_handle demo_store "[10, 20, 30]" 0
        SIG_DFL, THEN conjunct1]
    by (simp only: f demo_reaches list.distinct simp_thms if_True)
  have d: "engine_calls (trace (lr_download_packages demo_world
        (demo_handle\<lparr>repotype := LR_REPOTYPE_OTHER 0\<rparr>) demo_store [10, 20, 30] 0 SIG_DFL)) = []"
    using engine_gets_unskipped_in_order [of demo_world
        "demo_handle\<lparr>repotype := LR_REPOTYPE_OTHER 0\<rparr>" demo_store "[10, 20, 30]" 0 SIG_DFL,
        THEN conjunct1]
    by (simp only: n simp_thms if_False)
  show ?thesis
    unfolding c d
    by (simp add: demo_store_def downloadtarget_for_def lr_downloadtarget_new_def demo_paths)
qed

subsection \<open>C8: the terminal state of a package target\<close>

text \<open>
  Claim C8 says that a transferred target ends with no terminal error. The file writes
  \<open>err\<close> in two places only, the marker of a skipped target and the copy of an error
  of the engine, and never clears it. Take \<open>foo\<close> as an earlier batch left it, with
  the marker, and submit it again after the local file was removed: it is not skipped,
  it is handed to the engine, the engine records no error and the call succeeds, and the
  target still ends with \<open>"Already downloaded"\<close>.
\<close>

theorem stale_error_survives_transfer_counterexample:
  "err (demo_resubmitted 10) = Some ''Already downloaded''
   \<and> reaches_prepare demo_world_later demo_handle
   \<and> \<not> skips demo_world_later (demo_resubmitted 10)
   \<and> map dt_userdata (download_list demo_world_later demo_resubmitted [10]) = [10]
   \<and> engine_errs demo_world_later demo_handle
        (download_list demo_world_later demo_resubmitted [10])
        (failfast_of demo_world_later 0) 0 = None
   \<and> ret (lr_download_packages demo_world_later demo_handle demo_resubmitted [10] 0 SIG_DFL)
   \<and> gerr (lr_download_packages demo_world_later demo_handle demo_resubmitted [10] 0 SIG_DFL)
       = None
   \<and> err (store_of (lr_download_packages demo_world_later demo_handle demo_resubmitted [10] 0
         SIG_DFL) 10) = Some ''Already downloaded''
   \<and> err (store_of (lr_download_packages demo_world_later demo_handle demo_resubmitted [10] 0
         SIG_DFL) 10) \<noteq> None"
proof -
  have r: "reaches_prepare demo_world_later demo_handle"
    by (simp add: reaches_prepare_def demo_world_later_def demo_world_def demo_handle_def)
  have n: "\<not> skips demo_world_later (demo_resubmitted 10)"
    by (simp add: skips_iff demo_world_later_def)
  have l: "download_list demo_world_later demo_resubmitted [10]
      = [downloadtarget_for demo_world_later (demo_resubmitted 10) 10]"
    by (simp add: download_list_def n)
  have u: "dt_userdata (downloadtarget_for w pt a) = a" for w pt a
    by (simp add: downloadtarget_for_def lr_downloadtarget_new_def)
  have e: "engine_errs demo_world_later demo_handle dts ff = (\<lambda>i. None)" for dts ff
    by (simp add: engine_errs_def engine_result_def demo_world_later_def)
  have g: "engine_result demo_world_later demo_handle dts ff = (True, None, (\<lambda>i. None))" for dts ff
    by (simp add: engine_result_def demo_world_later_def demo_world_def)
  have i: "\<not> lr_interrupt demo_world_later"
    by (simp add: demo_world_later_def demo_world_def)
  have s: "err (demo_resubmitted 10) = Some ''Already downloaded''"
    by (simp add: demo_resubmitted_def)
  have ne: "[10 :: addr] \<noteq> []" by simp
  have q: "\<forall>k<length (download_list demo_world_later demo_resubmitted [10]).
      dt_userdata (download_list demo_world_later demo_resubmitted [10] ! k) = 10 \<longrightarrow>
      (\<lambda>i. None :: string option) k = None"
    by simp
  have f: "err (store_of (lr_download_packages demo_world_later demo_handle demo_resubmitted [10] 0
         SIG_DFL) 10) = Some ''Already downloaded''"
    unfolding batch_reached [OF ne r] e
    by (simp add: copy_annotated_untouched [OF q] prepared_fields n s)
  have o: "ret (lr_download_packages demo_world_later demo_handle demo_resubmitted [10] 0 SIG_DFL)"
    "gerr (lr_download_packages demo_world_later demo_handle demo_resubmitted [10] 0 SIG_DFL)
       = None"
    unfolding batch_reached [OF ne r] by (simp_all add: g i)
  from s r n o show ?thesis
    unfolding f e by (simp add: l u)
qed

text \<open>
  Claim C8 as amended. In a call that reaches the loop, every package target of the list
  ends in exactly one of three ways, told apart by what happened to it. Skipped: its
  \<open>err\<close> is \<open>"Already downloaded"\<close> and no download target points back to it, so
  the copy of the statuses cannot overwrite the marker. Transferred: it was handed to the
  engine, the engine recorded no error on any download target that points back to it,
  and its \<open>err\<close> is what it was before the call, which is no error for a target as
  \<open>lr_packagetarget_new\<close> makes it. Failed: it was handed to the engine and its
  \<open>err\<close> is an error that the engine recorded on a download target that points back
  to it.
\<close>

theorem terminal_states:
  assumes "reaches_prepare w handle" and "a \<in> set targets"
  shows "\<exists>r cell st' tr.
      lr_download_packages w handle st targets flags cur = Returned r cell st' cur tr
    \<and> engine_calls tr = [(download_list w st targets, failfast_of w flags)]
    \<and> (let dts = download_list w st targets;
            errs = engine_errs w handle dts (failfast_of w flags)
        in if skips w (st a)
           then err (st' a) = Some ''Already downloaded'' \<and> a \<notin> dt_userdata ` set dts
           else a \<in> dt_userdata ` set dts
             \<and> (if \<forall>k<length dts. dt_userdata (dts ! k) = a \<longrightarrow> errs k = None
                then err (st' a) = err (st a)
                else \<exists>k<length dts. dt_userdata (dts ! k) = a \<and> errs k \<noteq> None
                       \<and> err (st' a) = errs k))"
proof -
  from assms(2) have nonempty: "targets \<noteq> []" by auto
  define dts where "dts = download_list w st targets"
  define errs where "errs = engine_errs w handle dts (failfast_of w flags)"
  define st1 where "st1 = (\<lambda>a. if a \<in> set targets then prepared w (st a) else st a)"
  define st' where "st' = copy_statuses st1 (annotate 0 errs dts)"
  have out: "lr_download_packages w handle st targets flags cur =
      Returned
       (if interruptible handle \<and> lr_interrupt w then False
        else fst (engine_result w handle dts (failfast_of w flags)))
       (if interruptible handle \<and> lr_interrupt w then Some interrupted_error
        else fst (snd (engine_result w handle dts (failfast_of w flags))))
       st' cur
       ((if interruptible handle then [EvSigactionInstall] else [])
          @ EvPrepareInternalMirrorlist # concat (map (\<lambda>a. check_events w (st a)) targets)
          @ EvDownload dts (failfast_of w flags)
          # (if interruptible handle then [EvSigactionRestore cur] else []))"
    unfolding st'_def st1_def errs_def dts_def by (rule batch_reached [OF nonempty assms(1)])
  have st1a: "err (st1 a) = (if skips w (st a) then Some ''Already downloaded'' else err (st a))"
    using assms(2) by (simp add: st1_def prepared_fields)
  have skipped: "err (st' a) = Some ''Already downloaded'' \<and> a \<notin> dt_userdata ` set dts"
    if s: "skips w (st a)"
  proof
    have "st' a = prepared w (st a)"
      unfolding st'_def st1_def dts_def
      by (rule final_store_skipped [where st = st and a = a, OF assms(2) s])
    then show "err (st' a) = Some ''Already downloaded''" by (simp add: prepared_fields s)
    show "a \<notin> dt_userdata ` set dts"
      unfolding dts_def using skipped_not_listed [of w st a targets] s by blast
  qed
  have listed: "a \<in> dt_userdata ` set dts" if n: "\<not> skips w (st a)"
  proof -
    have "downloadtarget_for w (st a) a \<in> set dts"
      unfolding dts_def using assms(2) n by (simp add: download_list_def)
    moreover have "dt_userdata (downloadtarget_for w (st a) a) = a"
      by (simp add: downloadtarget_for_def lr_downloadtarget_new_def)
    ultimately show ?thesis by (metis imageI)
  qed
  have quiet: "err (st' a) = err (st a)"
    if n: "\<not> skips w (st a)" and q: "\<forall>k<length dts. dt_userdata (dts ! k) = a \<longrightarrow> errs k = None"
    unfolding st'_def using copy_annotated_untouched [OF q, of st1] st1a n by simp
  have recorded: "\<exists>k<length dts. dt_userdata (dts ! k) = a \<and> errs k \<noteq> None \<and> err (st' a) = errs k"
    if q: "\<not> (\<forall>k<length dts. dt_userdata (dts ! k) = a \<longrightarrow> errs k = None)"
  proof -
    from q have "\<exists>k<length dts. dt_userdata (dts ! k) = a \<and> errs k \<noteq> None" by blast
    from copy_annotated_recorded [OF this, of st1] show ?thesis by (simp add: st'_def)
  qed
  have "engine_calls
          ((if interruptible handle then [EvSigactionInstall] else [])
            @ EvPrepareInternalMirrorlist # concat (map (\<lambda>a. check_events w (st a)) targets)
            @ EvDownload dts (failfast_of w flags)
            # (if interruptible handle then [EvSigactionRestore cur] else []))
        = [(dts, failfast_of w flags)]"
    by (rule reached_trace)
  with out skipped listed quiet recorded show ?thesis
    unfolding Let_def dts_def [symmetric] errs_def [symmetric]
    by (cases "skips w (st a)") auto
qed

text \<open>
  C8 as amended, at the concrete batch of fresh targets: \<open>foo\<close> is skipped, \<open>bar\<close>
  is transferred and ends without error, \<open>baz\<close> fails with the error of the engine.
\<close>

theorem terminal_states_witness:
  "reaches_prepare demo_world demo_handle
   \<and> (10 :: addr) \<in> set [10, 20, 30] \<and> (20 :: addr) \<in> set [10, 20, 30] \<and> (30 :: addr) \<in> set [10, 20, 30]
   \<and> err (store_of (lr_download_packages demo_world demo_handle demo_store [10, 20, 30] 0 SIG_DFL) 10)
       = Some ''Already downloaded''
   \<and> err (store_of (lr_download_packages demo_world demo_handle demo_store [10, 20, 30] 0 SIG_DFL) 20)
       = None
   \<and> err (store_of (lr_download_packages demo_world demo_handle demo_store [10, 20, 30] 0 SIG_DFL) 30)
       = Some ''Not found''"
proof -
  have h: "reaches_prepare demo_world demo_handle" "(10 :: addr) \<in> set [10, 20, 30]"
    "(20 :: addr) \<in> set [10, 20, 30]" "(30 :: addr) \<in> set [10, 20, 30]"
    by (simp_all add: demo_reaches)
  have u: "dt_userdata (downloadtarget_for w pt a) = a" for w pt a
    by (simp add: downloadtarget_for_def lr_downloadtarget_new_def)
  have s: "skips demo_world (demo_store 10)" "\<not> skips demo_world (demo_store 20)"
    "\<not> skips demo_world (demo_store 30)"
    by (simp_all add: demo_store_def demo_skips)
  have e: "err (demo_store 20) = None"
    by (simp add: demo_store_def demo_bar_def)
  let ?out = "lr_download_packages demo_world demo_handle demo_store [10, 20, 30] 0 SIG_DFL"
  from terminal_states [where st = demo_store and a = 10 and flags = 0 and cur = SIG_DFL,
      OF h(1) h(2)]
  obtain r cell st' tr where out: "?out = Returned r cell st' SIG_DFL tr"
    and a0: "err (st' 10) = Some ''Already downloaded''"
    unfolding Let_def by (simp only: s if_True) blast
  from terminal_states [where st = demo_store and a = 20 and flags = 0 and cur = SIG_DFL,
      OF h(1) h(3)] out
  have a1: "err (st' 20) = None"
    by (simp add: s demo_download_list demo_engine_errs u e All_less_Suc Ex_less_Suc)
  from terminal_states [where st = demo_store and a = 30 and flags = 0 and cur = SIG_DFL,
      OF h(1) h(4)] out
  have a2: "err (st' 30) = Some ''Not found''"
    by (simp add: s demo_download_list demo_engine_errs u All_less_Suc Ex_less_Suc)
  from h a0 a1 a2 show ?thesis by (simp add: out)
qed

subsection \<open>C9: a handle of another repo type\<close>

text \<open>
  Claim C9 says that a non-empty batch on a handle of an unsupported repo type fails with
  a configuration error. The branch runs \<open>assert(0)\<close> before it sets the error: in
  the concrete world, where \<open>NDEBUG\<close> is not defined, the call does not return the
  error; the process aborts.
\<close>

theorem bad_repotype_aborts_counterexample:
  "lr_download_packages demo_world (demo_handle\<lparr>repotype := LR_REPOTYPE_OTHER 0\<rparr>)
     demo_store [10, 20, 30] 0 SIG_DFL = Aborted []
   \<and> lr_download_packages demo_world (demo_handle\<lparr>repotype := LR_REPOTYPE_OTHER 0\<rparr>)
       demo_store [10, 20, 30] 0 SIG_DFL
     \<noteq> Returned False
         (Some \<lparr>gerror_domain = LR_PACKAGE_DOWNLOADER_ERROR, gerror_code = LRE_BADFUNCARG,
                gerror_message = ''Bad repo type''\<rparr>) demo_store SIG_DFL []"
  by (simp add: lr_download_packages_def demo_world_def demo_handle_def)

text \<open>
  Claim C9 as amended. A non-empty batch on a handle whose repo type is not
  \<open>LR_YUMREPO\<close> does no work: the trace is empty (no handler installed, no file
  opened, no call of the engine) and the store is unchanged. In a build that defines
  \<open>NDEBUG\<close> the call returns false with the error \<open>LRE_BADFUNCARG\<close>,
  \<open>"Bad repo type"\<close>; in a build with assertions the process aborts at
  \<open>assert(0)\<close>.
\<close>

theorem bad_repotype_does_nothing:
  assumes "targets \<noteq> []" and "repotype handle \<noteq> LR_YUMREPO"
  shows "lr_download_packages w handle st targets flags cur =
     (if NDEBUG w
      then Returned False
             (Some \<lparr>gerror_domain = LR_PACKAGE_DOWNLOADER_ERROR, gerror_code = LRE_BADFUNCARG,
                    gerror_message = ''Bad repo type''\<rparr>) st cur []
      else Aborted [])"
  using assms by (simp add: lr_download_packages_def g_set_error_def)

text \<open>
  C9 as amended, in the concrete world with \<open>NDEBUG\<close> defined.
\<close>

theorem bad_repotype_does_nothing_witness:
  "[10, 20, 30] \<noteq> ([] :: addr list)
   \<and> repotype (demo_handle\<lparr>repotype := LR_REPOTYPE_OTHER 0\<rparr>) \<noteq> LR_YUMREPO
   \<and> lr_download_packages (demo_world\<lparr>NDEBUG := True\<rparr>)
       (demo_handle\<lparr>repotype := LR_REPOTYPE_OTHER 0\<rparr>) demo_store [10, 20, 30] 0 SIG_DFL
     = Returned False
         (Some \<lparr>gerror_domain = LR_PACKAGE_DOWNLOADER_ERROR, gerror_code = LRE_BADFUNCARG,
                gerror_message = ''Bad repo type''\<rparr>) demo_store SIG_DFL []"
  using bad_repotype_does_nothing [of "[10, 20, 30]" "demo_handle\<lparr>repotype := LR_REPOTYPE_OTHER 0\<rparr>"
      "demo_world\<lparr>NDEBUG := True\<rparr>" demo_store 0 SIG_DFL]
  by (simp add: demo_world_def demo_handle_def)

subsection \<open>C10: the empty batch\<close>

text \<open>
  Claim C10. Called with an empty list, \<open>lr_download_packages\<close> returns true at once:
  no error is set, the store and the SIGINT handler are untouched and the trace is empty,
  whatever the handle, its repo type included.
\<close>

theorem empty_batch_succeeds:
  "lr_download_packages w handle st [] flags cur = Returned True None st cur []"
  by (simp add: lr_download_packages_def)

end
